theory Spec2Isabelle
  imports Complex_Main "HOL-Library.Sublist"
begin

section \<open>Shared vocabulary\<close>

text \<open>
  Every exception the modelled functions can raise is a value of \<open>error\<close>; a function that
  can raise returns \<open>error + 'a\<close> with \<open>Inl\<close> for the exception.
\<close>

datatype error = TypeError | AttributeError | KeyError | ValueError | OverflowError | FetchError

text \<open>\<open>d[k]\<close> on a dict: raises \<open>KeyError\<close> when the key is missing.\<close>

definition getitem :: "('k \<rightharpoonup> 'v) \<Rightarrow> 'k \<Rightarrow> error + 'v" where
  "getitem d k = (case d k of None \<Rightarrow> Inl KeyError | Some v \<Rightarrow> Inr v)"

text \<open>\<open>str(n)\<close> for a Python int: decimal digits, a leading minus sign when negative.\<close>

definition digit_char :: "nat \<Rightarrow> char" where
  "digit_char d = char_of (48 + d)"

fun str_nat :: "nat \<Rightarrow> string" where
  "str_nat n = (if n < 10 then [digit_char n] else str_nat (n div 10) @ [digit_char (n mod 10)])"

declare str_nat.simps [simp del]

definition str_int :: "int \<Rightarrow> string" where
  "str_int i = (if i < 0 then CHR ''-'' # str_nat (nat (- i)) else str_nat (nat i))"

text \<open>The number a string of decimal digits stands for.\<close>

definition digits_value :: "string \<Rightarrow> nat" where
  "digits_value s = foldl (\<lambda>a c. 10 * a + (of_char c - 48)) 0 s"

section \<open>models.py: StatUpdate\<close>

text \<open>
  The four counters of a \<open>StatUpdate\<close> are also the four entries of the dict the
  normalizer keeps per player (\<open>{"goals": 0, "assists": 0, "minutes": 0, "injury": False}\<close>);
  they are declared once, as the record \<open>tally\<close>, and \<open>StatUpdate\<close> adds the player id.
\<close>

record tally =
  goals :: int
  assists :: int
  minutes :: int
  injury :: bool

record stat_update = tally +
  player_id :: string

section \<open>Python floats\<close>

text \<open>
  A Python float is an IEEE-754 binary64 value: a finite value, which is a rational number,
  one of the two infinities (\<open>Infinity True\<close> is the positive one), or NaN. The two zeros
  \<open>0.0\<close> and \<open>-0.0\<close> are one value here; \<open>==\<close> does not tell them apart, and \<open>+\<close>, \<open>*\<close>
  and \<open>round\<close> give equal results on them.
\<close>

datatype pyfloat = Finite rat | Infinity bool | NaN

text \<open>The integer nearest to a rational, a tie going to the even one.\<close>

definition half_even :: "rat \<Rightarrow> int" where
  "half_even r =
     (let f = \<lfloor>r\<rfloor>; d = r - of_int f
      in if d < 1 / 2 then f else if 1 / 2 < d then f + 1
         else if even f then f else f + 1)"

text \<open>\<open>n.bit_length()\<close>: the number of binary digits of \<open>n\<close>.\<close>

fun bit_length :: "nat \<Rightarrow> nat" where
  "bit_length n = (if n = 0 then 0 else Suc (bit_length (n div 2)))"

declare bit_length.simps [simp del]

text \<open>
  Every finite double is an integer multiple of \<open>2^-1074\<close>, and one of at most 53 binary
  digits times a power of two. \<open>rnd x\<close> is the result of rounding the rational \<open>x\<close> to
  binary64, to nearest and a tie to the even mantissa: with \<open>s\<close> the magnitude of \<open>x\<close> in
  units of \<open>2^-1074\<close>, the spacing \<open>q\<close> of the doubles around \<open>s\<close> is \<open>2^(b - 53)\<close> units for
  \<open>b\<close> the number of binary digits of the integer part of \<open>s\<close> (one unit when \<open>b \<le> 53\<close>,
  the subnormal range), and \<open>s\<close> is rounded to a multiple of \<open>q\<close>. A result of
  magnitude \<open>2^1024\<close> or more is an infinity.
\<close>

definition tiny :: nat where
  "tiny = 1074"

definition rnd :: "rat \<Rightarrow> pyfloat" where
  "rnd x =
     (let s = \<bar>x\<bar> * 2 ^ tiny;
          q = 2 ^ (bit_length (nat \<lfloor>s\<rfloor>) - 53);
          v = of_int (half_even (s / q)) * q / 2 ^ tiny
      in if 2 ^ 1024 \<le> v then Infinity (0 < x) else Finite (sgn x * v))"

text \<open>\<open>a * b\<close> and \<open>a + b\<close> on floats: the exact result rounded; they never raise.\<close>

fun float_mul :: "pyfloat \<Rightarrow> pyfloat \<Rightarrow> pyfloat" where
  "float_mul NaN b = NaN"
| "float_mul a NaN = NaN"
| "float_mul (Finite x) (Finite y) = rnd (x * y)"
| "float_mul (Finite x) (Infinity p) = (if x = 0 then NaN else Infinity (p = (0 < x)))"
| "float_mul (Infinity p) (Finite y) = (if y = 0 then NaN else Infinity (p = (0 < y)))"
| "float_mul (Infinity p) (Infinity r) = Infinity (p = r)"

fun float_add :: "pyfloat \<Rightarrow> pyfloat \<Rightarrow> pyfloat" where
  "float_add NaN b = NaN"
| "float_add a NaN = NaN"
| "float_add (Finite x) (Finite y) = rnd (x + y)"
| "float_add (Finite x) (Infinity p) = Infinity p"
| "float_add (Infinity p) (Finite y) = Infinity p"
| "float_add (Infinity p) (Infinity r) = (if p = r then Infinity p else NaN)"

text \<open>
  \<open>round(a, 2)\<close>: the exact value of \<open>a\<close> is rounded to two decimals, a tie going to the
  even digit, and the decimal number is converted back to the nearest double. An infinity
  and NaN are returned as they are.
\<close>

fun float_round2 :: "pyfloat \<Rightarrow> pyfloat" where
  "float_round2 (Finite x) = rnd (of_int (half_even (x * 100)) / 100)"
| "float_round2 a = a"

text \<open>
  The conversion of an int operand in \<open>100.0 * n\<close>: the nearest double, and
  \<open>OverflowError\<close> (here \<open>None\<close>) when the int is beyond the range of the doubles.
\<close>

definition float_of_int :: "int \<Rightarrow> pyfloat option" where
  "float_of_int n = (case rnd (of_int n) of Finite x \<Rightarrow> Some (Finite x) | _ \<Rightarrow> None)"

section \<open>pricing\_engine.py: PricingEngine\<close>

text \<open>
  Prices are Python floats. The engine uses four float operations: the conversion of an
  int operand (which raises \<open>OverflowError\<close> for an int beyond the float range), \<open>*\<close>, \<open>+\<close>
  and \<open>round(_, 2)\<close>, and the four literals \<open>100.0\<close>, \<open>50.0\<close>, \<open>0.1\<close> and \<open>0.7\<close>. The
  engine is modelled over a record \<open>A\<close> of these operations, so that what is proved of
  \<open>apply_stat\<close> for every \<open>A\<close> does not depend on how they round; \<open>binary64\<close> is the
  record of the operations Python has. The order in which the source combines them is
  kept.
\<close>

record 'p arith =
  from_int :: "int \<Rightarrow> 'p option"
  mul :: "'p \<Rightarrow> 'p \<Rightarrow> 'p"
  add :: "'p \<Rightarrow> 'p \<Rightarrow> 'p"
  round2 :: "'p \<Rightarrow> 'p"
  c_100 :: 'p
  c_50 :: 'p
  c_0_1 :: 'p
  c_0_7 :: 'p

definition binary64 :: "pyfloat arith" where
  "binary64 = \<lparr>from_int = float_of_int, mul = float_mul, add = float_add,
               round2 = float_round2, c_100 = Finite 100, c_50 = Finite 50,
               c_0_1 = rnd (1 / 10), c_0_7 = rnd (7 / 10)\<rparr>"

record 'p pricing_engine =
  prices :: "string \<rightharpoonup> 'p"
  base_price :: 'p

definition init :: "'p \<Rightarrow> 'p pricing_engine" where
  "init bp = \<lparr>prices = Map.empty, base_price = bp\<rparr>"

text \<open>
  A method of the engine returns its value or raises, and in both cases leaves the engine
  in some state: the result is the pair of the two.
\<close>

definition ensure :: "'p pricing_engine \<Rightarrow> string \<Rightarrow> (error + 'p) \<times> 'p pricing_engine" where
  "ensure eng pid =
     (let eng1 = (if pid \<notin> dom (prices eng)
                  then eng\<lparr>prices := (prices eng)(pid \<mapsto> base_price eng)\<rparr> else eng)
      in (getitem (prices eng1) pid, eng1))"

text \<open>
  \<open>apply_stat\<close> is a coroutine: after the store it prints the update and awaits
  \<open>asyncio.sleep(0)\<close>, then returns \<open>self.prices[pid]\<close>. The model is one call run on its
  own, with no other task changing the map during that await, so the value read back is
  the one just stored. \<open>str(stat.player_id)\<close> is the id itself, a str. Each of the three
  products converts its int operand and raises \<open>OverflowError\<close> when that fails, after
  \<open>_ensure\<close> has run.
\<close>

definition apply_stat ::
  "'p arith \<Rightarrow> stat_update \<Rightarrow> 'p pricing_engine \<Rightarrow> (error + 'p) \<times> 'p pricing_engine" where
  "apply_stat A stat eng =
     (let pid = player_id stat in
      case ensure eng pid of
        (Inl e, eng1) \<Rightarrow> (Inl e, eng1)
      | (Inr price, eng1) \<Rightarrow>
          (case from_int A (goals stat) of
             None \<Rightarrow> (Inl OverflowError, eng1)
           | Some g \<Rightarrow>
               (let delta = mul A (c_100 A) g in
                case from_int A (assists stat) of
                  None \<Rightarrow> (Inl OverflowError, eng1)
                | Some a \<Rightarrow>
                    (let delta = add A delta (mul A (c_50 A) a) in
                     case from_int A (minutes stat) of
                       None \<Rightarrow> (Inl OverflowError, eng1)
                     | Some m \<Rightarrow>
                         (let delta = add A delta (mul A (c_0_1 A) m);
                              price = (if injury stat then mul A price (c_0_7 A) else price);
                              new_price = add A price delta;
                              eng2 = eng1\<lparr>prices := (prices eng1)(pid \<mapsto> round2 A new_price)\<rparr>
                          in (getitem (prices eng2) pid, eng2))))))"

text \<open>
  A run of the engine: the stats of a list applied one after the other to the same engine,
  whether a call returns or raises.
\<close>

fun run :: "'p arith \<Rightarrow> 'p pricing_engine \<Rightarrow> stat_update list \<Rightarrow> 'p pricing_engine" where
  "run A eng [] = eng"
| "run A eng (s # ss) = run A (snd (apply_stat A s eng)) ss"

text \<open>
  The price a player has before an update: the stored one, the base price when the
  player is not in the map.
\<close>

definition current_price :: "'p pricing_engine \<Rightarrow> string \<Rightarrow> 'p" where
  "current_price eng pid = (case prices eng pid of None \<Rightarrow> base_price eng | Some p \<Rightarrow> p)"

text \<open>
  The pricing rule in the spec's words: \<open>round((P*0.7 if injury else P) + 100*goals +
  50*assists + 0.1*minutes, 2)\<close>, where \<open>100*goals + 50*assists + 0.1*minutes\<close> is the
  delta, summed from the left and then added to the price; \<open>g\<close>, \<open>a\<close> and \<open>m\<close> are the
  three counters as floats.
\<close>

definition pricing_rule :: "'p arith \<Rightarrow> 'p \<Rightarrow> bool \<Rightarrow> 'p \<Rightarrow> 'p \<Rightarrow> 'p \<Rightarrow> 'p" where
  "pricing_rule A P injured g a m =
     round2 A (add A (if injured then mul A P (c_0_7 A) else P)
       (add A (add A (mul A (c_100 A) g) (mul A (c_50 A) a)) (mul A (c_0_1 A) m)))"


section \<open>main.py, main\_production.py: broadcast\<close>

text \<open>
  \<open>clients\<close> is the list of connected WebSockets. \<open>ws.send_json(message)\<close> either returns
  or raises; \<open>send ws message\<close> is \<open>True\<close> when it returns. What a delivery does to the
  outside world is kept as the list \<open>received\<close> of the subscribers the message reached.
  The first loop runs over \<open>clients\<close> and only appends to \<open>to_remove\<close>; the second loop
  runs over \<open>to_remove\<close> and calls \<open>clients.remove\<close>, which raises \<open>ValueError\<close> for an
  element that is not in the list.
\<close>

fun send_loop ::
  "('ws \<Rightarrow> 'm \<Rightarrow> bool) \<Rightarrow> 'm \<Rightarrow> 'ws list \<Rightarrow> 'ws list \<Rightarrow> 'ws list \<Rightarrow> 'ws list \<times> 'ws list" where
  "send_loop send message [] received to_remove = (received, to_remove)"
| "send_loop send message (ws # rest) received to_remove =
     (if send ws message
      then send_loop send message rest (received @ [ws]) to_remove
      else send_loop send message rest received (to_remove @ [ws]))"

definition list_remove :: "'a list \<Rightarrow> 'a \<Rightarrow> error + 'a list" where
  "list_remove xs x = (if x \<in> set xs then Inr (remove1 x xs) else Inl ValueError)"

fun remove_loop :: "'ws list \<Rightarrow> 'ws list \<Rightarrow> error + 'ws list" where
  "remove_loop clients [] = Inr clients"
| "remove_loop clients (ws # rest) =
     (case list_remove clients ws of
        Inl e \<Rightarrow> Inl e
      | Inr clients' \<Rightarrow> remove_loop clients' rest)"

definition broadcast ::
  "('ws \<Rightarrow> 'm \<Rightarrow> bool) \<Rightarrow> 'm \<Rightarrow> 'ws list \<Rightarrow> error + ('ws list \<times> 'ws list)" where
  "broadcast send message clients =
     (let (received, to_remove) = send_loop send message clients [] [] in
      case remove_loop clients to_remove of
        Inl e \<Rightarrow> Inl e
      | Inr clients' \<Rightarrow> Inr (received, clients'))"

section \<open>asyncio: the tasks of the event loop\<close>

text \<open>
  \<open>asyncio.create_task(coro)\<close> hands a coroutine to the event loop as a new task and returns
  its handle; \<open>task.cancel()\<close> requests its cancellation. The event loop is the list of the
  tasks created so far, each with the coroutine it runs and whether it has been cancelled;
  a handle is the position of the task in that list.
\<close>

datatype coroutine =
  Simulator_run
| LiveDataProvider_poll_loop
| LiveMatchFeed_poll_loop "int list option"

type_synonym event_loop = "(coroutine \<times> bool) list"

definition create_task :: "event_loop \<Rightarrow> coroutine \<Rightarrow> nat \<times> event_loop" where
  "create_task loop coro = (length loop, loop @ [(coro, False)])"

definition cancel :: "event_loop \<Rightarrow> nat \<Rightarrow> event_loop" where
  "cancel loop t = (if t < length loop then loop[t := (fst (loop ! t), True)] else loop)"

definition live_tasks :: "event_loop \<Rightarrow> coroutine list" where
  "live_tasks loop = map fst (filter (\<lambda>(coro, cancelled). \<not> cancelled) loop)"

section \<open>The lifecycle of the event sources\<close>

text \<open>
  \<open>Simulator\<close> (simulator.py), \<open>LiveDataProvider\<close> (data\_provider.py) and \<open>LiveMatchFeed\<close>
  (api\_football\_client.py) each keep a running flag and the handle of their task. The two
  fields have one name here for the three classes (\<open>_running\<close>/\<open>running\<close>,
  \<open>_task\<close>/\<open>task\<close>); each class extends the pair with its own fields. Fields that neither
  \<open>start\<close>, \<open>stop\<close> nor \<open>_process_fixture\<close> reads (callbacks, intervals, the player roster)
  are left out.
\<close>

record source =
  running :: bool
  task :: "nat option"

definition simulator_start :: "source \<times> event_loop \<Rightarrow> source \<times> event_loop" where
  "simulator_start = (\<lambda>(self, loop).
     if running self then (self, loop)
     else (let (t, loop') = create_task loop Simulator_run
           in (self\<lparr>running := True, task := Some t\<rparr>, loop')))"

definition simulator_stop :: "source \<times> event_loop \<Rightarrow> source \<times> event_loop" where
  "simulator_stop = (\<lambda>(self, loop).
     (self\<lparr>running := False\<rparr>,
      case task self of None \<Rightarrow> loop | Some t \<Rightarrow> cancel loop t))"

definition provider_start :: "source \<times> event_loop \<Rightarrow> source \<times> event_loop" where
  "provider_start = (\<lambda>(self, loop).
     (let (t, loop') = create_task loop LiveDataProvider_poll_loop
      in (self\<lparr>running := True, task := Some t\<rparr>, loop')))"

definition provider_stop :: "source \<times> event_loop \<Rightarrow> source \<times> event_loop" where
  "provider_stop = (\<lambda>(self, loop).
     (self\<lparr>running := False\<rparr>,
      case task self of None \<Rightarrow> loop | Some t \<Rightarrow> cancel loop t))"

section \<open>api\_football\_client.py: PlayerEvent, LiveMatchFeed\<close>

record player_event =
  event_player_id :: int
  player_name :: string
  team :: string
  event_type :: string
  minute :: int
  detail :: string

record api_football_client =
  base_url :: string
  api_key :: "string option"

text \<open>
  The price a broadcast message carries is a float read from the engine's price map, or
  the int \<open>1000\<close> when the player has no price or the feed has no engine.
\<close>

datatype 'p number = PyFloat 'p | PyInt int

record 'p live_match_feed = source +
  client :: api_football_client
  pricing_engine :: "'p pricing_engine option"
  processed_events :: "string set"
  player_mapping :: "int \<rightharpoonup> string"

record 'p live_event =
  fixture_id :: int
  event_our_player_id :: string
  event_player_name :: string
  event :: string
  event_detail :: string
  event_minute :: int
  price :: "'p number"

definition feed_start ::
  "int list option \<Rightarrow> 'p live_match_feed \<times> event_loop \<Rightarrow> 'p live_match_feed \<times> event_loop" where
  "feed_start fixture_ids = (\<lambda>(self, loop).
     (let (t, loop') = create_task loop (LiveMatchFeed_poll_loop fixture_ids)
      in (self\<lparr>running := True, task := Some t\<rparr>, loop')))"

definition feed_stop ::
  "'p live_match_feed \<times> event_loop \<Rightarrow> 'p live_match_feed \<times> event_loop" where
  "feed_stop = (\<lambda>(self, loop).
     (self\<lparr>running := False\<rparr>,
      case task self of None \<Rightarrow> loop | Some t \<Rightarrow> cancel loop t))"

definition event_key :: "int \<Rightarrow> player_event \<Rightarrow> string" where
  "event_key fid ev =
     str_int fid @ ''_'' @ str_int (event_player_id ev) @ ''_'' @ event_type ev @ ''_'' @
     str_int (minute ev)"

definition live_event_message :: "'p live_match_feed \<Rightarrow> int \<Rightarrow> player_event \<Rightarrow> 'p live_event" where
  "live_event_message self fid ev =
     (let our_player_id = (case player_mapping self (event_player_id ev) of
                             Some mapped \<Rightarrow> mapped
                           | None \<Rightarrow> str_int (event_player_id ev))
      in \<lparr>fixture_id = fid,
          event_our_player_id = our_player_id,
          event_player_name = player_name ev,
          event = event_type ev,
          event_detail = detail ev,
          event_minute = minute ev,
          price = (case pricing_engine self of
                     None \<Rightarrow> PyInt 1000
                   | Some eng \<Rightarrow> (case prices eng our_player_id of
                                    None \<Rightarrow> PyInt 1000
                                  | Some p \<Rightarrow> PyFloat p))\<rparr>)"

text \<open>
  The loop of \<open>_process_fixture\<close> over the events of one fixture. \<open>self.broadcast\<close> is the
  callback the feed was built with: \<open>broadcast_cb message\<close> is \<open>None\<close> when the call
  returns and the exception when it raises. The messages whose broadcast returned are
  collected in \<open>sent\<close>. An exception leaves the loop and is caught and printed by
  \<open>_process_fixture\<close>, which then returns; the third component of the result is that
  exception, \<open>None\<close> when the loop ran to its end.
\<close>

fun process_events ::
  "('p live_event \<Rightarrow> error option) \<Rightarrow> int \<Rightarrow> player_event list \<Rightarrow>
   'p live_match_feed \<times> 'p live_event list \<Rightarrow>
   'p live_match_feed \<times> 'p live_event list \<times> error option" where
  "process_events broadcast_cb fid [] (self, sent) = (self, sent, None)"
| "process_events broadcast_cb fid (ev # rest) (self, sent) =
     (if event_key fid ev \<in> processed_events self
      then process_events broadcast_cb fid rest (self, sent)
      else (let self' = self\<lparr>processed_events := insert (event_key fid ev) (processed_events self)\<rparr>;
                message = live_event_message self' fid ev
            in case broadcast_cb message of
                 None \<Rightarrow> process_events broadcast_cb fid rest (self', sent @ [message])
               | Some e \<Rightarrow> (self', sent, Some e)))"


text \<open>
  The deduplication identity in the spec's words: source id, fixture id, player id, event
  type and minute. The source of an event is the client the feed polls.
\<close>

definition spec_event_key ::
  "'p live_match_feed \<Rightarrow> int \<Rightarrow> player_event \<Rightarrow> api_football_client \<times> int \<times> int \<times> string \<times> int" where
  "spec_event_key self fid ev = (client self, fid, event_player_id ev, event_type ev, minute ev)"

section \<open>Python values and built-ins used by the normalizer\<close>

text \<open>
  A payload is what \<open>json.load\<close> returns: \<open>None\<close>, a bool, an int, a float, a str, a list or
  a dict. A dict is the list of its items in insertion order, and a key is looked up from
  the front. Floats are values of a type \<open>'f\<close> about which nothing is assumed.
\<close>

datatype 'f pyval =
  NoneV
| BoolV bool
| IntV int
| FloatV 'f
| StrV string
| ListV "'f pyval list"
| DictV "(string \<times> 'f pyval) list"

text \<open>
  The built-ins whose result is not computed here are parameters: the truth value,
  \<open>int(x)\<close> and \<open>str(x)\<close> of a float, \<open>int(s)\<close> of a string, and \<open>str(x)\<close> of a list or
  a dict; \<open>None\<close> stands for a conversion that raises.
\<close>

record 'f builtins =
  float_bool :: "'f \<Rightarrow> bool"
  float_int :: "'f \<Rightarrow> int option"
  float_str :: "'f \<Rightarrow> string"
  int_of_str :: "string \<Rightarrow> int option"
  str_of_container :: "'f pyval \<Rightarrow> string"

definition truthy :: "'f builtins \<Rightarrow> 'f pyval \<Rightarrow> bool" where
  "truthy B v =
     (case v of
        NoneV \<Rightarrow> False
      | BoolV b \<Rightarrow> b
      | IntV n \<Rightarrow> n \<noteq> 0
      | FloatV x \<Rightarrow> float_bool B x
      | StrV s \<Rightarrow> s \<noteq> []
      | ListV xs \<Rightarrow> xs \<noteq> []
      | DictV d \<Rightarrow> d \<noteq> [])"

text \<open>\<open>a or b\<close>: \<open>a\<close> when it is truthy, otherwise \<open>b\<close> whatever \<open>b\<close> is.\<close>

definition py_or :: "'f builtins \<Rightarrow> 'f pyval \<Rightarrow> 'f pyval \<Rightarrow> 'f pyval" where
  "py_or B a b = (if truthy B a then a else b)"

text \<open>\<open>d.get(k)\<close>: \<open>None\<close> when the key is missing.\<close>

definition dict_get :: "(string \<times> 'f pyval) list \<Rightarrow> string \<Rightarrow> 'f pyval" where
  "dict_get d k = (case map_of d k of None \<Rightarrow> NoneV | Some v \<Rightarrow> v)"

definition py_str :: "'f builtins \<Rightarrow> 'f pyval \<Rightarrow> string" where
  "py_str B v =
     (case v of
        NoneV \<Rightarrow> ''None''
      | BoolV b \<Rightarrow> (if b then ''True'' else ''False'')
      | IntV n \<Rightarrow> str_int n
      | FloatV x \<Rightarrow> float_str B x
      | StrV s \<Rightarrow> s
      | ListV xs \<Rightarrow> str_of_container B v
      | DictV d \<Rightarrow> str_of_container B v)"

text \<open>\<open>int(v)\<close>; \<open>None\<close> when it raises (\<open>TypeError\<close> for \<open>None\<close>, a list or a dict).\<close>

definition py_int :: "'f builtins \<Rightarrow> 'f pyval \<Rightarrow> int option" where
  "py_int B v =
     (case v of
        NoneV \<Rightarrow> None
      | BoolV b \<Rightarrow> Some (if b then 1 else 0)
      | IntV n \<Rightarrow> Some n
      | FloatV x \<Rightarrow> float_int B x
      | StrV s \<Rightarrow> int_of_str B s
      | ListV xs \<Rightarrow> None
      | DictV d \<Rightarrow> None)"

text \<open>\<open>s.lower()\<close> on the ASCII letters; other characters are left as they are.\<close>

definition lower_char :: "char \<Rightarrow> char" where
  "lower_char c =
     (case map_of (zip ''ABCDEFGHIJKLMNOPQRSTUVWXYZ'' ''abcdefghijklmnopqrstuvwxyz'') c of
        None \<Rightarrow> c
      | Some l \<Rightarrow> l)"

definition lower :: "string \<Rightarrow> string" where
  "lower s = map lower_char s"

text \<open>\<open>v.lower()\<close> on any value: only a str has the method.\<close>

definition lower_of :: "'f pyval \<Rightarrow> error + string" where
  "lower_of v = (case v of StrV s \<Rightarrow> Inr (lower s) | _ \<Rightarrow> Inl AttributeError)"

text \<open>\<open>sub in s\<close> on strings, and \<open>s.startswith(sub)\<close>.\<close>

fun str_in :: "string \<Rightarrow> string \<Rightarrow> bool" where
  "str_in sub [] = (sub = [])"
| "str_in sub (c # cs) = (prefix sub (c # cs) \<or> str_in sub cs)"

definition startswith :: "string \<Rightarrow> string \<Rightarrow> bool" where
  "startswith s sub = prefix sub s"

text \<open>
  \<open>for x in v\<close>: the elements of a list, the characters of a str, the keys of a dict;
  \<open>TypeError\<close> for a value that is not iterable.
\<close>

definition py_iter :: "'f pyval \<Rightarrow> error + 'f pyval list" where
  "py_iter v =
     (case v of
        ListV xs \<Rightarrow> Inr xs
      | StrV s \<Rightarrow> Inr (map (\<lambda>c. StrV [c]) s)
      | DictV d \<Rightarrow> Inr (map (\<lambda>(k, x). StrV k) d)
      | _ \<Rightarrow> Inl TypeError)"

section \<open>data\_provider.py: process\_statsbomb\<close>

text \<open>
  \<open>by_player\<close> maps a player id to its tally and keeps the order of insertion, which is the
  order of the final loop. \<open>_ensure\<close> returns \<open>None\<close> or a reference to the player's tally;
  the reference is the key under which the tally is stored.
\<close>

type_synonym by_player = "(string \<times> tally) list"

definition setdefault :: "by_player \<Rightarrow> string \<Rightarrow> tally \<Rightarrow> by_player" where
  "setdefault d k v = (if k \<in> fst ` set d then d else d @ [(k, v)])"

definition update_item :: "by_player \<Rightarrow> string \<Rightarrow> (tally \<Rightarrow> tally) \<Rightarrow> by_player" where
  "update_item d k f = map (\<lambda>(k', v). if k' = k then (k', f v) else (k', v)) d"

definition by_player_ensure ::
  "'f builtins \<Rightarrow> by_player \<Rightarrow> 'f pyval \<Rightarrow> string option \<times> by_player" where
  "by_player_ensure B by_player pid =
     (case pid of
        NoneV \<Rightarrow> (None, by_player)
      | _ \<Rightarrow> (let pid_s = py_str B pid
              in (Some pid_s,
                  setdefault by_player pid_s
                    \<lparr>goals = 0, assists = 0, minutes = 0, injury = False\<rparr>)))"

text \<open>The fields read from one event \<open>ev\<close> and from one entry \<open>r\<close> of its related players.\<close>

definition minute_of :: "'f builtins \<Rightarrow> (string \<times> 'f pyval) list \<Rightarrow> int" where
  "minute_of B ev =
     (case py_int B (py_or B (py_or B (dict_get ev ''minute'') (dict_get ev ''min'')) (IntV 0)) of
        None \<Rightarrow> 0
      | Some n \<Rightarrow> n)"

definition type_name :: "'f builtins \<Rightarrow> (string \<times> 'f pyval) list \<Rightarrow> error + string" where
  "type_name B ev =
     (let t = py_or B (dict_get ev ''type'') (DictV [])
      in case t of
           DictV d \<Rightarrow> lower_of (py_or B (dict_get d ''name'') (StrV ''''))
         | _ \<Rightarrow> Inr (if truthy B t then lower (py_str B t) else ''''))"

definition id_of :: "'f builtins \<Rightarrow> 'f pyval \<Rightarrow> 'f pyval" where
  "id_of B player_obj =
     (case player_obj of
        DictV d \<Rightarrow> py_or B (dict_get d ''id'') (dict_get d ''player_id'')
      | _ \<Rightarrow> player_obj)"

definition player_of :: "'f builtins \<Rightarrow> (string \<times> 'f pyval) list \<Rightarrow> 'f pyval" where
  "player_of B ev =
     py_or B (py_or B (dict_get ev ''player'') (dict_get ev ''player_id'')) (dict_get ev ''playerId'')"

definition related_of :: "'f builtins \<Rightarrow> (string \<times> 'f pyval) list \<Rightarrow> 'f pyval" where
  "related_of B ev =
     py_or B (py_or B (py_or B (dict_get ev ''related_players'') (dict_get ev ''relatedPlayers''))
                (dict_get ev ''related'')) (ListV [])"

definition role_of :: "'f builtins \<Rightarrow> (string \<times> 'f pyval) list \<Rightarrow> error + string" where
  "role_of B r = lower_of (py_or B (py_or B (dict_get r ''role'') (dict_get r ''type'')) (StrV ''''))"

definition rplayer_of :: "'f builtins \<Rightarrow> (string \<times> 'f pyval) list \<Rightarrow> 'f pyval" where
  "rplayer_of B r =
     py_or B (py_or B (dict_get r ''player'') (dict_get r ''player_id'')) (dict_get r ''id'')"

definition is_goal :: "string \<Rightarrow> bool" where
  "is_goal tname \<longleftrightarrow>
     str_in ''goal'' tname \<or> str_in ''shot - goal'' tname \<or> startswith tname ''goal''"

definition is_injury :: "string \<Rightarrow> bool" where
  "is_injury tname \<longleftrightarrow>
     str_in ''injur'' tname \<or> str_in ''injury'' tname \<or> str_in ''injured'' tname"

definition is_assist :: "string \<Rightarrow> bool" where
  "is_assist role \<longleftrightarrow> str_in ''assist'' role \<or> str_in ''assister'' role"

definition add_goal :: "int \<Rightarrow> tally \<Rightarrow> tally" where
  "add_goal at_minute rec = rec\<lparr>goals := goals rec + 1, minutes := max (minutes rec) at_minute\<rparr>"

definition set_injury :: "tally \<Rightarrow> tally" where
  "set_injury rec = rec\<lparr>injury := True\<rparr>"

definition add_assist :: "int \<Rightarrow> tally \<Rightarrow> tally" where
  "add_assist at_minute rrec = rrec\<lparr>assists := assists rrec + 1, minutes := max (minutes rrec) at_minute\<rparr>"

fun related_loop ::
  "'f builtins \<Rightarrow> int \<Rightarrow> 'f pyval list \<Rightarrow> by_player \<Rightarrow> error + by_player" where
  "related_loop B at_minute [] by_player = Inr by_player"
| "related_loop B at_minute (r # rest) by_player =
     (case r of
        DictV rd \<Rightarrow>
          (case role_of B rd of
             Inl e \<Rightarrow> Inl e
           | Inr role \<Rightarrow>
               (case by_player_ensure B by_player (id_of B (rplayer_of B rd)) of
                  (None, by_player1) \<Rightarrow> related_loop B at_minute rest by_player1
                | (Some rrec, by_player1) \<Rightarrow>
                    related_loop B at_minute rest
                      (if is_assist role then update_item by_player1 rrec (add_assist at_minute)
                       else by_player1)))
      | _ \<Rightarrow> related_loop B at_minute rest by_player)"

definition process_event :: "'f builtins \<Rightarrow> 'f pyval \<Rightarrow> by_player \<Rightarrow> error + by_player" where
  "process_event B ev by_player =
     (case ev of
        DictV d \<Rightarrow>
          (let at_minute = minute_of B d in
           case type_name B d of
             Inl e \<Rightarrow> Inl e
           | Inr tname \<Rightarrow>
               (let (rec, by_player1) = by_player_ensure B by_player (id_of B (player_of B d));
                    by_player2 = (case rec of
                                    Some k \<Rightarrow> if is_goal tname
                                              then update_item by_player1 k (add_goal at_minute)
                                              else by_player1
                                  | None \<Rightarrow> by_player1);
                    by_player3 = (case rec of
                                    Some k \<Rightarrow> if is_injury tname
                                              then update_item by_player2 k set_injury
                                              else by_player2
                                  | None \<Rightarrow> by_player2)
                in case related_of B d of
                     ListV related \<Rightarrow> related_loop B at_minute related by_player3
                   | _ \<Rightarrow> Inr by_player3))
      | _ \<Rightarrow> Inr by_player)"

fun events_loop :: "'f builtins \<Rightarrow> 'f pyval list \<Rightarrow> by_player \<Rightarrow> error + by_player" where
  "events_loop B [] by_player = Inr by_player"
| "events_loop B (ev # rest) by_player =
     (case process_event B ev by_player of
        Inl e \<Rightarrow> Inl e
      | Inr by_player' \<Rightarrow> events_loop B rest by_player')"

definition events_of :: "'f builtins \<Rightarrow> 'f pyval \<Rightarrow> 'f pyval" where
  "events_of B data =
     (case data of
        DictV d \<Rightarrow> py_or B (py_or B (dict_get d ''events'') (dict_get d ''event'')) (ListV [])
      | ListV xs \<Rightarrow> data
      | _ \<Rightarrow> ListV [])"

definition emit :: "string \<times> tally \<Rightarrow> stat_update" where
  "emit = (\<lambda>(pid, stats).
     \<lparr>goals = goals stats, assists = assists stats, minutes = minutes stats,
      injury = injury stats, player_id = pid\<rparr>)"

text \<open>
  The result is the list of the \<open>StatUpdate\<close>s handed to the callback, in order, or the
  exception that leaves the function before the first of them is built.
\<close>

definition process_statsbomb :: "'f builtins \<Rightarrow> 'f pyval \<Rightarrow> error + stat_update list" where
  "process_statsbomb B data =
     (case py_iter (events_of B data) of
        Inl e \<Rightarrow> Inl e
      | Inr events \<Rightarrow>
          (case events_loop B events [] of
             Inl e \<Rightarrow> Inl e
           | Inr by_player \<Rightarrow> Inr (map emit by_player)))"

text \<open>
  An instance of the parameters for evaluating concrete payloads. The payloads evaluated
  below hold no float, read no minute from a string and no id from a list or a dict, so
  none of these functions is ever called on them.
\<close>

definition unused :: "unit builtins" where
  "unused = \<lparr>float_bool = (\<lambda>x. True), float_int = (\<lambda>x. None), float_str = (\<lambda>x. ''float''),
             int_of_str = (\<lambda>s. None), str_of_container = (\<lambda>v. ''container'')\<rparr>"

section \<open>What a payload says about a player\<close>

text \<open>
  The events of a payload, in the order the normalizer visits them (none when the
  payload's events cannot be iterated).
\<close>

definition events_list :: "'f builtins \<Rightarrow> 'f pyval \<Rightarrow> 'f pyval list" where
  "events_list B data = (case py_iter (events_of B data) of Inl e \<Rightarrow> [] | Inr events \<Rightarrow> events)"

text \<open>
  The identifiers an event resolves: the one of its primary player, then the one of each
  entry of its related players that is a dict. \<open>NoneV\<close> is an absent identifier.
\<close>

definition related_ids :: "'f builtins \<Rightarrow> 'f pyval list \<Rightarrow> 'f pyval list" where
  "related_ids B related =
     concat (map (\<lambda>r. case r of DictV rd \<Rightarrow> [id_of B (rplayer_of B rd)] | _ \<Rightarrow> []) related)"

definition event_ids :: "'f builtins \<Rightarrow> 'f pyval \<Rightarrow> 'f pyval list" where
  "event_ids B ev =
     (case ev of
        DictV d \<Rightarrow> id_of B (player_of B d) #
                  (case related_of B d of ListV related \<Rightarrow> related_ids B related | _ \<Rightarrow> [])
      | _ \<Rightarrow> [])"

definition resolved_ids :: "'f builtins \<Rightarrow> 'f pyval \<Rightarrow> 'f pyval list" where
  "resolved_ids B data = concat (map (event_ids B) (events_list B data))"

text \<open>
  The minute marks credited to the player with key \<open>k\<close>: the minute of each event that is
  a goal of \<open>k\<close>, and the minute of the event once for each of its related entries that is
  an assist of \<open>k\<close>.
\<close>

definition goal_minutes :: "'f builtins \<Rightarrow> string \<Rightarrow> 'f pyval \<Rightarrow> int list" where
  "goal_minutes B k ev =
     (case ev of
        DictV d \<Rightarrow>
          (case type_name B d of
             Inl e \<Rightarrow> []
           | Inr tname \<Rightarrow>
               if is_goal tname \<and> id_of B (player_of B d) \<noteq> NoneV \<and>
                  py_str B (id_of B (player_of B d)) = k
               then [minute_of B d] else [])
      | _ \<Rightarrow> [])"

definition assist_entry :: "'f builtins \<Rightarrow> string \<Rightarrow> 'f pyval \<Rightarrow> bool" where
  "assist_entry B k r =
     (case r of
        DictV rd \<Rightarrow>
          (case role_of B rd of
             Inl e \<Rightarrow> False
           | Inr role \<Rightarrow>
               is_assist role \<and> id_of B (rplayer_of B rd) \<noteq> NoneV \<and>
               py_str B (id_of B (rplayer_of B rd)) = k)
      | _ \<Rightarrow> False)"

definition assist_minutes :: "'f builtins \<Rightarrow> string \<Rightarrow> 'f pyval \<Rightarrow> int list" where
  "assist_minutes B k ev =
     (case ev of
        DictV d \<Rightarrow>
          (case related_of B d of
             ListV related \<Rightarrow> map (\<lambda>r. minute_of B d) (filter (assist_entry B k) related)
           | _ \<Rightarrow> [])
      | _ \<Rightarrow> [])"

definition credited_minutes :: "'f builtins \<Rightarrow> string \<Rightarrow> 'f pyval \<Rightarrow> int list" where
  "credited_minutes B k data =
     concat (map (\<lambda>ev. goal_minutes B k ev @ assist_minutes B k ev) (events_list B data))"

text \<open>The minute marks of all the events of a payload whose primary player has key \<open>k\<close>.\<close>

definition event_minutes :: "'f builtins \<Rightarrow> string \<Rightarrow> 'f pyval \<Rightarrow> int list" where
  "event_minutes B k data =
     concat (map (\<lambda>ev. case ev of
                          DictV d \<Rightarrow> if id_of B (player_of B d) \<noteq> NoneV \<and>
                                        py_str B (id_of B (player_of B d)) = k
                                     then [minute_of B d] else []
                        | _ \<Rightarrow> [])
                 (events_list B data))"

text \<open>The tally minutes stored for a key, 0 for a key that is not in the dict.\<close>

definition minutes_at :: "by_player \<Rightarrow> string \<Rightarrow> int" where
  "minutes_at d k = (case map_of d k of None \<Rightarrow> 0 | Some rec \<Rightarrow> minutes rec)"

section \<open>The loops of the normalizer when nothing raises\<close>

text \<open>
  What one entry of the related players and one event do to \<open>by_player\<close> when no exception
  leaves the function; the loops are then folds of these steps (\<open>related_loop_fold\<close>,
  \<open>events_loop_fold\<close> below).
\<close>

abbreviation (input) zero_tally :: tally where
  "zero_tally \<equiv> \<lparr>goals = 0, assists = 0, minutes = 0, injury = False\<rparr>"

definition related_step :: "'f builtins \<Rightarrow> int \<Rightarrow> 'f pyval \<Rightarrow> by_player \<Rightarrow> by_player" where
  "related_step B at_minute r d =
     (case r of
        DictV rd \<Rightarrow>
          (let rid = id_of B (rplayer_of B rd) in
           if rid = NoneV then d
           else if assist_entry B (py_str B rid) r
           then update_item (setdefault d (py_str B rid) zero_tally) (py_str B rid)
                  (add_assist at_minute)
           else setdefault d (py_str B rid) zero_tally)
      | _ \<Rightarrow> d)"

definition event_step :: "'f builtins \<Rightarrow> 'f pyval \<Rightarrow> by_player \<Rightarrow> by_player" where
  "event_step B ev d =
     (case ev of
        DictV e \<Rightarrow>
          (let pid = id_of B (player_of B e);
               k = py_str B pid;
               d1 = (if pid = NoneV then d else setdefault d k zero_tally);
               d2 = (if pid \<noteq> NoneV \<and> (case type_name B e of Inl x \<Rightarrow> False | Inr tname \<Rightarrow> is_goal tname)
                     then update_item d1 k (add_goal (minute_of B e)) else d1);
               d3 = (if pid \<noteq> NoneV \<and> (case type_name B e of Inl x \<Rightarrow> False | Inr tname \<Rightarrow> is_injury tname)
                     then update_item d2 k set_injury else d2)
           in case related_of B e of
                ListV related \<Rightarrow> fold (related_step B (minute_of B e)) related d3
              | _ \<Rightarrow> d3)
      | _ \<Rightarrow> d)"


section \<open>Properties of the float operations\<close>

lemma bit_length_eq: "2 ^ k \<le> n \<Longrightarrow> n < 2 ^ Suc k \<Longrightarrow> bit_length n = Suc k"
proof (induction k arbitrary: n)
  case 0
  then have "n = 1" by simp
  then show ?case by (simp add: bit_length.simps [of "Suc 0"] bit_length.simps [of 0])
next
  case (Suc k)
  then have "2 ^ k \<le> n div 2" "n div 2 < 2 ^ Suc k" by auto
  from Suc.IH [OF this] have "bit_length (n div 2) = Suc k" .
  moreover from Suc.prems have "n \<noteq> 0" by auto
  ultimately show ?case by (subst bit_length.simps) simp
qed

lemma floor_rat_numeral: "\<lfloor>numeral a / numeral b :: rat\<rfloor> = numeral a div numeral b"
  by (metis floor_divide_of_int_eq of_int_numeral)

lemma scaled_floor_lower:
  fixes x :: rat
  assumes "2 ^ n \<le> \<bar>x\<bar> * 2 ^ tiny"
  shows "2 ^ n \<le> nat \<lfloor>\<bar>x\<bar> * 2 ^ tiny\<rfloor>"
proof -
  have "(of_int (2 ^ n) :: rat) \<le> \<bar>x\<bar> * 2 ^ tiny" using assms by simp
  then have "(2 ^ n :: int) \<le> \<lfloor>\<bar>x\<bar> * 2 ^ tiny\<rfloor>" by (simp only: le_floor_iff)
  then show ?thesis by (simp add: le_nat_iff)
qed

lemma scaled_floor_upper:
  fixes x :: rat
  assumes "\<bar>x\<bar> * 2 ^ tiny < 2 ^ Suc n"
  shows "nat \<lfloor>\<bar>x\<bar> * 2 ^ tiny\<rfloor> < 2 ^ Suc n"
proof -
  have "\<bar>x\<bar> * 2 ^ tiny < of_int (2 ^ Suc n)" using assms by simp
  then have "\<lfloor>\<bar>x\<bar> * 2 ^ tiny\<rfloor> < (2 ^ Suc n :: int)" by (simp only: floor_less_iff)
  then show ?thesis by (simp add: nat_less_iff)
qed

text \<open>Rounding a value whose binade is known, in units of \<open>2^-1074\<close>.\<close>

lemma rnd_scaled:
  assumes n: "52 \<le> n" and lo: "2 ^ n \<le> \<bar>x\<bar> * 2 ^ tiny" and hi: "\<bar>x\<bar> * 2 ^ tiny < 2 ^ Suc n"
  shows "rnd x =
     (let q = 2 ^ (n - 52) / 2 ^ tiny; v = of_int (half_even (\<bar>x\<bar> / q)) * q
      in if 2 ^ 1024 \<le> v then Infinity (0 < x) else Finite (sgn x * v))"
proof -
  let ?s = "\<bar>x\<bar> * 2 ^ tiny"
  have bl: "bit_length (nat \<lfloor>?s\<rfloor>) - 53 = n - 52"
    using bit_length_eq [OF scaled_floor_lower [OF lo] scaled_floor_upper [OF hi]] n by simp
  have q: "?s / 2 ^ (n - 52) = \<bar>x\<bar> / (2 ^ (n - 52) / 2 ^ tiny)"
    by (simp only: divide_divide_eq_right)
  have v: "\<And>h :: rat. h * 2 ^ (n - 52) / 2 ^ tiny = h * (2 ^ (n - 52) / 2 ^ tiny)"
    by (simp only: times_divide_eq_right)
  show ?thesis
    unfolding rnd_def Let_def bl q v ..
qed

text \<open>The same for a value in \<open>[2^k, 2^(k+1))\<close>: the doubles there are \<open>2^(k - 52)\<close> apart.\<close>

lemma rnd_ge1:
  assumes "2 ^ k \<le> \<bar>x\<bar>" and "\<bar>x\<bar> < 2 * 2 ^ k"
  shows "rnd x =
     (let q = 2 ^ k / 2 ^ 52; v = of_int (half_even (\<bar>x\<bar> / q)) * q
      in if 2 ^ 1024 \<le> v then Infinity (0 < x) else Finite (sgn x * v))"
proof -
  define w :: nat where "w = 1022"
  define c :: rat where "c = 2 ^ tiny"
  have t: "tiny = 52 + w" by (simp add: tiny_def w_def)
  have c: "0 < c" by (simp add: c_def)
  have "2 ^ k * c \<le> \<bar>x\<bar> * c"
    using assms(1) c by (intro mult_right_mono) simp_all
  then have lo: "2 ^ (k + tiny) \<le> \<bar>x\<bar> * 2 ^ tiny"
    by (simp only: power_add c_def)
  have "\<bar>x\<bar> * c < 2 * 2 ^ k * c"
    using assms(2) c by (intro mult_strict_right_mono) simp_all
  then have hi: "\<bar>x\<bar> * 2 ^ tiny < 2 ^ Suc (k + tiny)"
    by (simp only: power_add power_Suc c_def)
  have n: "52 \<le> k + tiny" by (simp add: t)
  have a: "k + tiny - 52 = k + w" by (simp add: t)
  have b: "(2 :: rat) ^ tiny = 2 ^ 52 * 2 ^ w" by (simp only: t power_add)
  have q: "(2 :: rat) ^ (k + tiny - 52) / 2 ^ tiny = 2 ^ k / 2 ^ 52"
    unfolding a b by (simp add: power_add)
  from rnd_scaled [OF n lo hi] show ?thesis
    unfolding q .
qed

text \<open>And for a value in \<open>[2^-j, 2^(1-j))\<close> with \<open>j \<le> 1022\<close>.\<close>

lemma rnd_lt1:
  assumes "j \<le> 1022" and "1 \<le> \<bar>x\<bar> * 2 ^ j" and "\<bar>x\<bar> * 2 ^ j < 2"
  shows "rnd x =
     (let q = 1 / 2 ^ (j + 52); v = of_int (half_even (\<bar>x\<bar> / q)) * q
      in if 2 ^ 1024 \<le> v then Infinity (0 < x) else Finite (sgn x * v))"
proof -
  define w :: nat where "w = 1022"
  define d where "d = w - j"
  define c :: rat where "c = 2 ^ (52 + d)"
  have t: "tiny = j + (52 + d)" using assms(1) by (simp add: tiny_def w_def d_def)
  have c: "0 < c" by (simp add: c_def)
  have split: "\<bar>x\<bar> * 2 ^ tiny = \<bar>x\<bar> * 2 ^ j * c"
    by (simp only: t power_add c_def mult.assoc)
  have "1 * c \<le> \<bar>x\<bar> * 2 ^ j * c"
    using assms(2) c by (intro mult_right_mono) simp_all
  then have lo: "2 ^ (52 + d) \<le> \<bar>x\<bar> * 2 ^ tiny"
    by (simp only: split mult_1) (simp only: c_def)
  have "\<bar>x\<bar> * 2 ^ j * c < 2 * c"
    using assms(3) c by (intro mult_strict_right_mono) simp_all
  then have hi: "\<bar>x\<bar> * 2 ^ tiny < 2 ^ Suc (52 + d)"
    by (simp only: split power_Suc) (simp only: c_def)
  have n: "52 \<le> 52 + d" by simp
  have a: "52 + d - 52 = d" by simp
  have b: "(2 :: rat) ^ tiny = 2 ^ (j + 52) * 2 ^ d"
    by (simp only: t power_add mult.assoc)
  have q: "(2 :: rat) ^ (52 + d - 52) / 2 ^ tiny = 1 / 2 ^ (j + 52)"
    unfolding a b by simp
  from rnd_scaled [OF n lo hi] show ?thesis
    unfolding q .
qed

lemma rnd_0: "rnd 0 = Finite 0"
  by (simp add: rnd_def half_even_def bit_length.simps [of 0])

text \<open>Rules that evaluate the float operations on numerals of magnitude between 1/16 and 2048.\<close>

lemmas rnd_eval =
  rnd_0
  rnd_ge1 [where k = 0] rnd_ge1 [where k = 1] rnd_ge1 [where k = 2] rnd_ge1 [where k = 3]
  rnd_ge1 [where k = 4] rnd_ge1 [where k = 5] rnd_ge1 [where k = 6] rnd_ge1 [where k = 7]
  rnd_ge1 [where k = 8] rnd_ge1 [where k = 9] rnd_ge1 [where k = 10]
  rnd_lt1 [where j = 1] rnd_lt1 [where j = 2] rnd_lt1 [where j = 3] rnd_lt1 [where j = 4]

lemmas float_eval =
  binary64_def float_of_int_def half_even_def floor_rat_numeral Let_def rnd_eval

text \<open>
  Two values Python computes: \<open>round(1000.0 * 0.7, 2)\<close> is \<open>700.0\<close>, and
  \<open>round(700.35 * 0.7, 2)\<close> is \<open>490.25\<close>, where rounding the exact decimal product
  \<open>490.245\<close> to the even digit would give \<open>490.24\<close>.
\<close>

lemma binary64_examples:
  "float_round2 (float_mul (Finite 1000) (c_0_7 binary64)) = Finite 700"
  "float_round2 (float_mul (rnd (70035 / 100)) (c_0_7 binary64)) = rnd (49025 / 100)"
  by (simp_all add: float_eval)

lemma float_of_int_overflow: "float_of_int (10 ^ 309) = None"
  by (simp add: float_of_int_def rnd_ge1 [where k = 1026] half_even_def floor_rat_numeral Let_def)

section \<open>Properties of the pricing engine\<close>

lemma ensure_eq:
  "ensure eng pid =
     (Inr (current_price eng pid),
      eng\<lparr>prices := (prices eng)(pid \<mapsto> current_price eng pid)\<rparr>)"
proof (cases "prices eng pid")
  case None
  then show ?thesis
    by (simp add: ensure_def getitem_def current_price_def Let_def domIff)
next
  case (Some p)
  then have "(prices eng)(pid \<mapsto> p) = prices eng" by (rule map_upd_triv)
  with Some show ?thesis
    by (simp add: ensure_def getitem_def current_price_def Let_def domIff)
qed

lemma apply_stat_returns:
  assumes "from_int A (goals stat) = Some g" and "from_int A (assists stat) = Some a"
    and "from_int A (minutes stat) = Some m"
  shows "apply_stat A stat eng =
     (Inr (pricing_rule A (current_price eng (player_id stat)) (injury stat) g a m),
      eng\<lparr>prices := (prices eng)(player_id stat \<mapsto>
             pricing_rule A (current_price eng (player_id stat)) (injury stat) g a m)\<rparr>)"
  using assms by (simp add: apply_stat_def ensure_eq getitem_def pricing_rule_def Let_def)

lemma apply_stat_raises:
  assumes "from_int A (goals stat) = None \<or> from_int A (assists stat) = None \<or>
           from_int A (minutes stat) = None"
  shows "apply_stat A stat eng =
     (Inl OverflowError,
      eng\<lparr>prices := (prices eng)(player_id stat \<mapsto> current_price eng (player_id stat))\<rparr>)"
  using assms by (auto simp: apply_stat_def ensure_eq Let_def split: option.splits)



text \<open>
  C1, as the spec states it, fails: for a StatUpdate whose goals are \<open>10^309\<close>, beyond the
  range of a float, \<open>100.0 * goals\<close> raises \<open>OverflowError\<close>; nothing is returned, and the
  player, absent before, is left in the map at the base price.
\<close>

theorem apply_stat_overflow:
  "apply_stat binary64
     \<lparr>goals = 10 ^ 309, assists = 0, minutes = 0, injury = False, player_id = ''p1''\<rparr>
     (init (Finite 1000)) =
     (Inl OverflowError, \<lparr>prices = [''p1'' \<mapsto> Finite 1000], base_price = Finite 1000\<rparr>)"
proof -
  let ?st = "\<lparr>goals = 10 ^ 309, assists = 0, minutes = 0, injury = False, player_id = ''p1''\<rparr>"
  have "goals ?st = 10 ^ 309" by simp
  then have "from_int binary64 (goals ?st) = None"
    by (simp only: binary64_def arith.select_convs float_of_int_overflow)
  from apply_stat_raises [OF disjI1 [OF this], of "init (Finite 1000)"] show ?thesis
    by (simp add: current_price_def init_def)
qed

text \<open>
  C1, amended. For every stat whose goals, assists and minutes convert to floats, and every
  engine state, \<open>apply_stat\<close> returns and stores under the player's id the pricing rule
  applied to the price the player had before (the stored price, the base price for a
  player not yet in the map): the injury factor multiplies that prior price and the delta
  is added to the product, and the result is rounded to 2 decimals. When one of the three
  counters does not convert, the call raises \<open>OverflowError\<close> and leaves the player in the
  map at that prior price. The next apply starts from the stored result: with Python's
  float operations two single-goal applies for one player from base 1000 return 1100 and
  then 1200.
\<close>

theorem apply_stat_pricing_rule:
  "(\<forall>A stat (eng :: 'p pricing_engine) g a m.
      from_int A (goals stat) = Some g \<and> from_int A (assists stat) = Some a \<and>
      from_int A (minutes stat) = Some m \<longrightarrow>
      apply_stat A stat eng =
        (Inr (pricing_rule A (current_price eng (player_id stat)) (injury stat) g a m),
         eng\<lparr>prices := (prices eng)(player_id stat \<mapsto>
                pricing_rule A (current_price eng (player_id stat)) (injury stat) g a m)\<rparr>)) \<and>
   (\<forall>A stat (eng :: 'p pricing_engine).
      from_int A (goals stat) = None \<or> from_int A (assists stat) = None \<or>
      from_int A (minutes stat) = None \<longrightarrow>
      apply_stat A stat eng =
        (Inl OverflowError,
         eng\<lparr>prices := (prices eng)(player_id stat \<mapsto> current_price eng (player_id stat))\<rparr>)) \<and>
   (\<forall>pid. \<exists>e1 e2.
      apply_stat binary64 \<lparr>goals = 1, assists = 0, minutes = 0, injury = False, player_id = pid\<rparr>
        (init (Finite 1000)) = (Inr (Finite 1100), e1) \<and>
      apply_stat binary64 \<lparr>goals = 1, assists = 0, minutes = 0, injury = False, player_id = pid\<rparr>
        e1 = (Inr (Finite 1200), e2))"
proof (intro conjI allI impI)
  fix A :: "'p arith" and stat :: stat_update and eng :: "'p pricing_engine" and g a m
  assume "from_int A (goals stat) = Some g \<and> from_int A (assists stat) = Some a \<and>
      from_int A (minutes stat) = Some m"
  then show "apply_stat A stat eng =
        (Inr (pricing_rule A (current_price eng (player_id stat)) (injury stat) g a m),
         eng\<lparr>prices := (prices eng)(player_id stat \<mapsto>
                pricing_rule A (current_price eng (player_id stat)) (injury stat) g a m)\<rparr>)"
    by (simp add: apply_stat_returns)
next
  fix A :: "'p arith" and stat :: stat_update and eng :: "'p pricing_engine"
  assume "from_int A (goals stat) = None \<or> from_int A (assists stat) = None \<or>
      from_int A (minutes stat) = None"
  then show "apply_stat A stat eng =
        (Inl OverflowError,
         eng\<lparr>prices := (prices eng)(player_id stat \<mapsto> current_price eng (player_id stat))\<rparr>)"
    by (rule apply_stat_raises)
next
  fix pid
  let ?g = "\<lparr>goals = 1, assists = 0, minutes = 0, injury = False, player_id = pid\<rparr>"
  have one: "from_int binary64 1 = Some (Finite 1)" and zero: "from_int binary64 0 = Some (Finite 0)"
    by (simp_all add: float_eval)
  have r1: "pricing_rule binary64 (Finite 1000) False (Finite 1) (Finite 0) (Finite 0) = Finite 1100"
    by (simp add: pricing_rule_def float_eval)
  have r2: "pricing_rule binary64 (Finite 1100) False (Finite 1) (Finite 0) (Finite 0) = Finite 1200"
    by (simp add: pricing_rule_def float_eval)
  have s1: "apply_stat binary64 ?g (init (Finite 1000)) =
      (Inr (Finite 1100), (init (Finite 1000))\<lparr>prices := (prices (init (Finite 1000)))(pid \<mapsto> Finite 1100)\<rparr>)"
    using apply_stat_returns [of binary64 ?g "Finite 1" "Finite 0" "Finite 0" "init (Finite 1000)"]
    by (simp add: one zero current_price_def init_def r1)
  have s2: "apply_stat binary64 ?g
        ((init (Finite 1000))\<lparr>prices := (prices (init (Finite 1000)))(pid \<mapsto> Finite 1100)\<rparr>) =
      (Inr (Finite 1200), (init (Finite 1000))\<lparr>prices := (prices (init (Finite 1000)))(pid \<mapsto> Finite 1200)\<rparr>)"
    using apply_stat_returns [of binary64 ?g "Finite 1" "Finite 0" "Finite 0"
        "(init (Finite 1000))\<lparr>prices := (prices (init (Finite 1000)))(pid \<mapsto> Finite 1100)\<rparr>"]
    by (simp add: one zero current_price_def init_def r2)
  from s1 s2 show "\<exists>e1 e2. apply_stat binary64 ?g (init (Finite 1000)) = (Inr (Finite 1100), e1) \<and>
      apply_stat binary64 ?g e1 = (Inr (Finite 1200), e2)"
    by blast
qed

theorem apply_stat_pricing_rule_witness:
  "from_int binary64 1 = Some (Finite 1) \<and> from_int binary64 2 = Some (Finite 2) \<and>
   from_int binary64 45 = Some (Finite 45) \<and>
   apply_stat binary64 \<lparr>goals = 1, assists = 2, minutes = 45, injury = False, player_id = ''p5''\<rparr>
     (init (Finite 1000)) =
     (Inr (Finite (2409 / 2)), \<lparr>prices = [''p5'' \<mapsto> Finite (2409 / 2)], base_price = Finite 1000\<rparr>)"
proof -
  let ?s = "\<lparr>goals = 1, assists = 2, minutes = 45, injury = False, player_id = ''p5''\<rparr>"
  have c: "from_int binary64 1 = Some (Finite 1)" "from_int binary64 2 = Some (Finite 2)"
    "from_int binary64 45 = Some (Finite 45)"
    by (simp_all add: float_eval)
  have r: "pricing_rule binary64 (Finite 1000) False (Finite 1) (Finite 2) (Finite 45) =
      Finite (2409 / 2)"
    by (simp add: pricing_rule_def float_eval)
  have "apply_stat binary64 ?s (init (Finite 1000)) =
        (Inr (pricing_rule binary64 (current_price (init (Finite 1000)) (player_id ?s)) (injury ?s)
               (Finite 1) (Finite 2) (Finite 45)),
         (init (Finite 1000))\<lparr>prices := (prices (init (Finite 1000)))(player_id ?s \<mapsto>
                pricing_rule binary64 (current_price (init (Finite 1000)) (player_id ?s)) (injury ?s)
                  (Finite 1) (Finite 2) (Finite 45))\<rparr>)"
    using apply_stat_pricing_rule [where ?'p = pyfloat] c by simp
  with c show ?thesis
    by (simp add: current_price_def init_def r)
qed




section \<open>Properties of broadcast\<close>

lemma send_loop_eq:
  "send_loop send m clients received to_remove =
     (received @ filter (\<lambda>ws. send ws m) clients,
      to_remove @ filter (\<lambda>ws. \<not> send ws m) clients)"
  by (induction clients arbitrary: received to_remove) auto

lemma remove_loop_marked:
  "\<forall>x \<in> set kept. \<not> P x \<Longrightarrow>
   remove_loop (kept @ clients) (filter P clients) = Inr (kept @ filter (\<lambda>x. \<not> P x) clients)"
proof (induction clients arbitrary: kept)
  case Nil
  then show ?case by simp
next
  case (Cons c clients)
  show ?case
  proof (cases "P c")
    case True
    with Cons.prems have "c \<notin> set kept" by auto
    then have "remove1 c (kept @ c # clients) = kept @ clients"
      by (simp add: remove1_append)
    with True Cons.IH [OF Cons.prems] show ?thesis
      by (simp add: list_remove_def)
  next
    case False
    with Cons.prems have "\<forall>x \<in> set (kept @ [c]). \<not> P x" by simp
    from Cons.IH [OF this] False show ?thesis by simp
  qed
qed

text \<open>
  C4. One broadcast of a message to the subscriber list: the delivery loop attempts every
  subscriber of the list, so each subscriber whose delivery returns receives the message
  whatever happened to the others, and the loop only marks the ones whose delivery
  raised; the removals happen afterwards, never raise, and leave exactly the subscribers
  that received the message, in their order.
\<close>

theorem broadcast_isolates_failures:
  "send_loop send message clients [] [] =
     (filter (\<lambda>ws. send ws message) clients, filter (\<lambda>ws. \<not> send ws message) clients) \<and>
   broadcast send message clients =
     Inr (filter (\<lambda>ws. send ws message) clients, filter (\<lambda>ws. send ws message) clients)"
proof -
  have "remove_loop ([] @ clients) (filter (\<lambda>ws. \<not> send ws message) clients) =
      Inr ([] @ filter (\<lambda>ws. \<not> \<not> send ws message) clients)"
    by (rule remove_loop_marked) simp
  then show ?thesis
    by (simp add: broadcast_def send_loop_eq)
qed

theorem broadcast_isolates_failures_witness:
  "broadcast (\<lambda>ws m. ws \<noteq> ''b'') ''price_update'' [''a'', ''b'', ''c''] =
     Inr ([''a'', ''c''], [''a'', ''c''])"
  using broadcast_isolates_failures [of "\<lambda>ws m. ws \<noteq> ''b''" "''price_update''" "[''a'', ''b'', ''c'']"]
  by simp

section \<open>Properties of decimal strings\<close>

lemma of_char_digit_char: "d < 10 \<Longrightarrow> (of_char (digit_char d) :: nat) = 48 + d"
  by (simp add: digit_char_def)

lemma digit_char_neq:
  "d < 10 \<Longrightarrow> digit_char d \<noteq> CHR ''_''" "d < 10 \<Longrightarrow> digit_char d \<noteq> CHR ''-''"
proof -
  assume d: "d < 10"
  have "(of_char (digit_char d) :: nat) \<noteq> of_char CHR ''_''"
    using d by (simp add: of_char_digit_char)
  then show "digit_char d \<noteq> CHR ''_''" by auto
  have "(of_char (digit_char d) :: nat) \<noteq> of_char CHR ''-''"
    using d by (simp add: of_char_digit_char)
  then show "digit_char d \<noteq> CHR ''-''" by auto
qed

lemma str_nat_chars: "c \<in> set (str_nat n) \<Longrightarrow> \<exists>d<10. c = digit_char d"
proof (induction n rule: str_nat.induct)
  case (1 n)
  show ?case
  proof (cases "n < 10")
    case True
    with "1.prems" show ?thesis by (auto simp: str_nat.simps [of n])
  next
    case False
    with "1.prems" have "c \<in> set (str_nat (n div 10)) \<or> c = digit_char (n mod 10)"
      by (auto simp: str_nat.simps [of n])
    with False "1.IH" show ?thesis
      by (metis mod_less_divisor zero_less_numeral)
  qed
qed

lemma str_nat_no_minus: "CHR ''-'' \<notin> set (str_nat n)"
proof
  assume "CHR ''-'' \<in> set (str_nat n)"
  then obtain d where "d < 10" "CHR ''-'' = digit_char d"
    using str_nat_chars by blast
  with digit_char_neq(2) [of d] show False by simp
qed

lemma str_nat_no_underscore: "CHR ''_'' \<notin> set (str_nat n)"
proof
  assume "CHR ''_'' \<in> set (str_nat n)"
  then obtain d where "d < 10" "CHR ''_'' = digit_char d"
    using str_nat_chars by blast
  with digit_char_neq(1) [of d] show False by simp
qed

lemma digits_value_str_nat: "digits_value (str_nat n) = n"
proof (induction n rule: str_nat.induct)
  case (1 n)
  show ?case
  proof (cases "n < 10")
    case True
    then show ?thesis
      by (simp add: str_nat.simps [of n] digits_value_def of_char_digit_char)
  next
    case False
    with "1.IH" have "digits_value (str_nat (n div 10)) = n div 10" by simp
    with False show ?thesis
      by (simp add: str_nat.simps [of n] digits_value_def of_char_digit_char)
  qed
qed

lemma str_nat_inj: "str_nat a = str_nat b \<Longrightarrow> a = b"
  by (metis digits_value_str_nat)

lemma str_int_inj: "str_int a = str_int b \<Longrightarrow> a = b"
proof -
  assume eq: "str_int a = str_int b"
  have nominus: "\<And>n. CHR ''-'' \<notin> set (str_nat n)"
    by (rule str_nat_no_minus)
  have nonempty: "\<And>n. str_nat n \<noteq> []"
    by (subst str_nat.simps) simp
  show ?thesis
  proof (cases "a < 0"; cases "b < 0")
    assume "a < 0" "b < 0"
    with eq have "nat (- a) = nat (- b)" by (auto simp: str_int_def dest: str_nat_inj)
    with \<open>a < 0\<close> \<open>b < 0\<close> show ?thesis by simp
  next
    assume "a < 0" "\<not> b < 0"
    with eq have "CHR ''-'' \<in> set (str_nat (nat b))"
      by (metis list.set_intros(1) str_int_def)
    with nominus show ?thesis by blast
  next
    assume "\<not> a < 0" "b < 0"
    with eq have "CHR ''-'' \<in> set (str_nat (nat a))"
      by (metis list.set_intros(1) str_int_def)
    with nominus show ?thesis by blast
  next
    assume "\<not> a < 0" "\<not> b < 0"
    with eq have "nat a = nat b" by (auto simp: str_int_def dest: str_nat_inj)
    with \<open>\<not> a < 0\<close> \<open>\<not> b < 0\<close> show ?thesis by simp
  qed
qed

lemma str_int_no_underscore: "CHR ''_'' \<notin> set (str_int i)"
  by (simp add: str_int_def str_nat_no_underscore)

lemma split_at_separator:
  "c \<notin> set a \<Longrightarrow> c \<notin> set a' \<Longrightarrow> a @ c # r = a' @ c # r' \<Longrightarrow> a = a' \<and> r = r'"
proof (induction a arbitrary: a')
  case Nil
  then show ?case by (cases a') auto
next
  case (Cons x a)
  then show ?case by (cases a') auto
qed

lemma split_at_last_separator:
  assumes "c \<notin> set m" "c \<notin> set m'" "t @ c # m = t' @ c # m'"
  shows "t = t' \<and> m = m'"
proof -
  from assms(3) have "rev (t @ c # m) = rev (t' @ c # m')" by simp
  then have "rev m @ c # rev t = rev m' @ c # rev t'" by simp
  from split_at_separator [OF _ _ this] assms(1,2) show ?thesis by simp
qed


lemma digit_char_simps:
  "digit_char 0 = CHR ''0''" "digit_char 1 = CHR ''1''" "digit_char 2 = CHR ''2''"
  "digit_char 3 = CHR ''3''" "digit_char 4 = CHR ''4''" "digit_char 5 = CHR ''5''"
  "digit_char 6 = CHR ''6''" "digit_char 7 = CHR ''7''" "digit_char 8 = CHR ''8''"
  "digit_char 9 = CHR ''9''"
  by code_simp+

lemma str_nat_numeral:
  "str_nat (numeral k) =
     (if (numeral k :: nat) < 10 then [digit_char (numeral k)]
      else str_nat (numeral k div 10) @ [digit_char (numeral k mod 10)])"
  by (rule str_nat.simps)

lemma str_nat_0_1: "str_nat 0 = ''0''" "str_nat 1 = ''1''" "str_nat (Suc 0) = ''1''"
  using digit_char_simps(2) by (simp_all add: str_nat.simps [of 0] str_nat.simps [of 1] str_nat.simps [of "Suc 0"] digit_char_simps)

lemmas str_eval = str_int_def str_nat_numeral str_nat_0_1 digit_char_simps

section \<open>Properties of the live match feed\<close>










text \<open>
  C3, as the spec states it, fails: the key carries no source id. The same event of the
  same fixture polled through two different clients gets the one key \<open>7_10_Goal_23\<close>, and
  a seen-set that holds this key discards the event whichever client the feed polls.
\<close>

theorem event_key_ignores_source:
  "(let ev = \<lparr>event_player_id = 10, player_name = ''A'', team = ''T'', event_type = ''Goal'',
              minute = 23, detail = ''Normal Goal''\<rparr>;
        a = \<lparr>running = True, task = Some 0,
             client = \<lparr>base_url = ''https://v3.football.api-sports.io'', api_key = Some ''k''\<rparr>,
             pricing_engine = None, processed_events = {}, player_mapping = Map.empty\<rparr>;
        b = a\<lparr>client := \<lparr>base_url = ''https://api-football-v1.p.rapidapi.com'', api_key = None\<rparr>\<rparr>;
        a' = fst (process_events (\<lambda>m. None) 7 [ev] (a :: rat live_match_feed, []));
        b' = fst (process_events (\<lambda>m. None) 7 [ev] (b, []))
    in spec_event_key a 7 ev \<noteq> spec_event_key b 7 ev \<and>
       processed_events a' = {''7_10_Goal_23''} \<and>
       processed_events b' = {''7_10_Goal_23''} \<and>
       process_events (\<lambda>m. None) 7 [ev] (a'\<lparr>client := client b\<rparr>, []) =
         (a'\<lparr>client := client b\<rparr>, [], None))"
  by (simp add: Let_def spec_event_key_def event_key_def str_eval)

text \<open>
  C3, amended. The key is made of four components, fixture id, player id, event type and
  minute, and of nothing else: two events have the same key exactly when they agree on all
  four, so events that differ in one of the four are never taken for duplicates.
\<close>

theorem event_key_four_components:
  "event_key f e = event_key f' e' \<longleftrightarrow>
     f = f' \<and> event_player_id e = event_player_id e' \<and> event_type e = event_type e' \<and>
     minute e = minute e'"
proof
  assume eq: "event_key f e = event_key f' e'"
  let ?u = "CHR ''_''"
  from eq have 1: "str_int f @ ?u # (str_int (event_player_id e) @ ?u # (event_type e @ ?u # str_int (minute e)))
      = str_int f' @ ?u # (str_int (event_player_id e') @ ?u # (event_type e' @ ?u # str_int (minute e')))"
    by (simp add: event_key_def)
  from split_at_separator [OF str_int_no_underscore str_int_no_underscore 1]
  have f: "str_int f = str_int f'"
    and 2: "str_int (event_player_id e) @ ?u # (event_type e @ ?u # str_int (minute e))
      = str_int (event_player_id e') @ ?u # (event_type e' @ ?u # str_int (minute e'))"
    by simp_all
  from split_at_separator [OF str_int_no_underscore str_int_no_underscore 2]
  have p: "str_int (event_player_id e) = str_int (event_player_id e')"
    and 3: "event_type e @ ?u # str_int (minute e) = event_type e' @ ?u # str_int (minute e')"
    by simp_all
  from split_at_last_separator [OF str_int_no_underscore str_int_no_underscore 3]
  have t: "event_type e = event_type e'" and m: "str_int (minute e) = str_int (minute e')"
    by simp_all
  from f p t m show "f = f' \<and> event_player_id e = event_player_id e' \<and>
      event_type e = event_type e' \<and> minute e = minute e'"
    by (simp add: str_int_inj)
next
  assume "f = f' \<and> event_player_id e = event_player_id e' \<and> event_type e = event_type e' \<and>
     minute e = minute e'"
  then show "event_key f e = event_key f' e'"
    by (simp add: event_key_def)
qed

theorem event_key_four_components_witness:
  "event_key 7 \<lparr>event_player_id = 10, player_name = ''A'', team = ''T'', event_type = ''Goal'',
                 minute = 23, detail = ''d''\<rparr> \<noteq>
   event_key 7 \<lparr>event_player_id = 10, player_name = ''A'', team = ''T'', event_type = ''Goal'',
                 minute = 24, detail = ''d''\<rparr>"
  using event_key_four_components [of 7
      "\<lparr>event_player_id = 10, player_name = ''A'', team = ''T'', event_type = ''Goal'',
        minute = 23, detail = ''d''\<rparr>" 7
      "\<lparr>event_player_id = 10, player_name = ''A'', team = ''T'', event_type = ''Goal'',
        minute = 24, detail = ''d''\<rparr>"]
  by simp

section \<open>Properties of the source lifecycle\<close>

lemma simulator_start_idempotent: "simulator_start (simulator_start x) = simulator_start x"
  by (cases x) (simp add: simulator_start_def create_task_def)

lemma simulator_start_running: "running self \<Longrightarrow> simulator_start (self, loop) = (self, loop)"
  by (simp add: simulator_start_def)

lemma simulator_start_stop:
  "simulator_stop (simulator_start (\<lparr>running = False, task = None\<rparr>, [])) =
     (\<lparr>running = False, task = Some 0\<rparr>, [(Simulator_run, True)])"
  by (simp add: simulator_start_def simulator_stop_def create_task_def cancel_def)

text \<open>
  C8. \<open>Simulator.start\<close> returns at once when the simulator is running (the two lemmas
  above). \<open>LiveDataProvider.start\<close> and \<open>LiveMatchFeed.start\<close> have no such test: called on
  a running source they create a second polling task and overwrite the handle of the
  first, which stays alive.
\<close>

theorem start_while_running_spawns_again:
  "provider_start (provider_start (\<lparr>running = False, task = None\<rparr>, [])) =
     (\<lparr>running = True, task = Some 1\<rparr>,
      [(LiveDataProvider_poll_loop, False), (LiveDataProvider_poll_loop, False)]) \<and>
   live_tasks (snd (feed_start None (feed_start None
     (\<lparr>running = False, task = None,
       client = \<lparr>base_url = ''https://v3.football.api-sports.io'', api_key = Some ''k''\<rparr>,
       pricing_engine = None :: rat pricing_engine option,
       processed_events = {}, player_mapping = Map.empty\<rparr>, [])))) =
     [LiveMatchFeed_poll_loop None, LiveMatchFeed_poll_loop None]"
  by (simp add: provider_start_def feed_start_def create_task_def live_tasks_def)

section \<open>Properties of the normalizer\<close>

lemmas norm_eval =
  process_statsbomb_def events_of_def py_iter_def process_event_def minute_of_def type_name_def
  id_of_def player_of_def related_of_def role_of_def rplayer_of_def is_goal_def is_injury_def
  is_assist_def add_goal_def set_injury_def add_assist_def by_player_ensure_def setdefault_def
  update_item_def emit_def py_or_def truthy_def dict_get_def py_str_def py_int_def lower_def
  lower_char_def lower_of_def startswith_def events_list_def related_ids_def event_ids_def
  resolved_ids_def goal_minutes_def assist_entry_def assist_minutes_def credited_minutes_def
  event_minutes_def str_eval Let_def

lemma by_player_ensure_eq:
  "by_player_ensure B d pid =
     (if pid = NoneV then (None, d)
      else (Some (py_str B pid),
            setdefault d (py_str B pid) \<lparr>goals = 0, assists = 0, minutes = 0, injury = False\<rparr>))"
  by (cases pid) (simp_all add: by_player_ensure_def Let_def)

lemma keys_setdefault: "fst ` set (setdefault d k v) = insert k (fst ` set d)"
  by (auto simp: setdefault_def)

lemma map_fst_update_item: "map fst (update_item d k f) = map fst d"
  by (induction d) (auto simp: update_item_def)

lemma keys_update_item: "fst ` set (update_item d k f) = fst ` set d"
  using map_fst_update_item [of d k f] by (metis set_map)

lemma distinct_setdefault: "distinct (map fst d) \<Longrightarrow> distinct (map fst (setdefault d k v))"
  by (auto simp: setdefault_def)

lemma map_of_update_item:
  "map_of (update_item d k f) k' = (if k' = k then map_option f (map_of d k) else map_of d k')"
  by (induction d) (auto simp: update_item_def)

lemma minutes_at_setdefault:
  "minutes v = 0 \<Longrightarrow> minutes_at (setdefault d k v) k' = minutes_at d k'"
proof (cases "k \<in> fst ` set d")
  case True
  then show ?thesis by (simp add: setdefault_def)
next
  case False
  assume v: "minutes v = 0"
  from False have none: "map_of d k = None"
    by (simp add: map_of_eq_None_iff)
  show ?thesis
  proof (cases "map_of d k'")
    case None
    with False v show ?thesis
      by (simp add: setdefault_def minutes_at_def map_add_def)
  next
    case (Some a)
    with False show ?thesis
      by (simp add: setdefault_def minutes_at_def map_add_def)
  qed
qed

lemma minutes_at_update_item:
  "k \<in> fst ` set d \<Longrightarrow> (\<And>rec. minutes (f rec) = g (minutes rec)) \<Longrightarrow>
   minutes_at (update_item d k f) k' = (if k' = k then g (minutes_at d k) else minutes_at d k')"
proof -
  assume k: "k \<in> fst ` set d" and f: "\<And>rec. minutes (f rec) = g (minutes rec)"
  from k obtain rec where "map_of d k = Some rec"
    by (metis map_of_eq_None_iff not_Some_eq)
  then show ?thesis
    by (simp add: minutes_at_def map_of_update_item f)
qed

lemmas zero_tally_minutes = minutes_at_setdefault [where v = "\<lparr>goals = 0, assists = 0, minutes = 0, injury = False\<rparr>", simplified]

lemma minutes_at_add_assist:
  "k \<in> fst ` set d \<Longrightarrow>
   minutes_at (update_item d k (add_assist m)) k' =
     (if k' = k then max (minutes_at d k) m else minutes_at d k')"
  by (rule minutes_at_update_item [where g = "\<lambda>x. max x m"]) (simp_all add: add_assist_def)

lemma minutes_at_add_goal:
  "k \<in> fst ` set d \<Longrightarrow>
   minutes_at (update_item d k (add_goal m)) k' =
     (if k' = k then max (minutes_at d k) m else minutes_at d k')"
  by (rule minutes_at_update_item [where g = "\<lambda>x. max x m"]) (simp_all add: add_goal_def)

lemma minutes_at_set_injury:
  "k \<in> fst ` set d \<Longrightarrow> minutes_at (update_item d k set_injury) k' = minutes_at d k'"
  using minutes_at_update_item [where g = "\<lambda>x. x" and f = set_injury and d = d and k = k and k' = k']
  by (simp add: set_injury_def)


lemma related_loop_fold:
  "related_loop B m rs d = Inr d' \<Longrightarrow> d' = fold (related_step B m) rs d"
proof (induction rs arbitrary: d)
  case Nil
  then show ?case by simp
next
  case (Cons r rs)
  show ?case
  proof (cases "\<exists>rd. r = DictV rd")
    case True
    then obtain rd where r: "r = DictV rd" by blast
    with Cons.prems obtain role where role: "role_of B rd = Inr role"
      by (auto split: sum.splits)
    from Cons.prems r role have "related_loop B m rs (related_step B m r d) = Inr d'"
      by (auto simp: by_player_ensure_eq related_step_def assist_entry_def Let_def split: if_splits)
    from Cons.IH [OF this] show ?thesis by simp
  next
    case False
    then have "related_step B m r d = d"
      by (cases r) (simp_all add: related_step_def)
    moreover from False Cons.prems have "related_loop B m rs d = Inr d'"
      by (cases r) simp_all
    ultimately show ?thesis using Cons.IH by simp
  qed
qed

lemma process_event_step:
  "process_event B ev d = Inr d' \<Longrightarrow> d' = event_step B ev d"
proof (cases "\<exists>e. ev = DictV e")
  case True
  assume run: "process_event B ev d = Inr d'"
  from True obtain e where ev: "ev = DictV e" by blast
  with run obtain tname where tname: "type_name B e = Inr tname"
    by (auto simp: process_event_def Let_def split: sum.splits)
  show ?thesis
  proof (cases "\<exists>rs. related_of B e = ListV rs")
    case True
    then obtain rs where rs: "related_of B e = ListV rs" by blast
    with run ev tname show ?thesis
      by (auto simp: process_event_def event_step_def by_player_ensure_eq Let_def
               dest!: related_loop_fold split: if_splits)
  next
    case False
    with run ev tname show ?thesis
      by (cases "related_of B e")
         (auto simp: process_event_def event_step_def by_player_ensure_eq Let_def
               split: if_splits)
  qed
next
  case False
  assume run: "process_event B ev d = Inr d'"
  with False show ?thesis
    by (cases ev) (simp_all add: process_event_def event_step_def)
qed

lemma events_loop_fold:
  "events_loop B evs d = Inr d' \<Longrightarrow> d' = fold (event_step B) evs d"
proof (induction evs arbitrary: d)
  case Nil
  then show ?case by simp
next
  case (Cons ev evs)
  from Cons.prems obtain d1 where step: "process_event B ev d = Inr d1"
    and rest: "events_loop B evs d1 = Inr d'"
    by (auto split: sum.splits)
  from process_event_step [OF step] Cons.IH [OF rest] show ?case by simp
qed


lemma related_ids_Cons:
  "related_ids B (r # rs) = (case r of DictV rd \<Rightarrow> [id_of B (rplayer_of B rd)] | _ \<Rightarrow> []) @ related_ids B rs"
  by (simp add: related_ids_def)

lemma related_step_keys:
  "fst ` set (related_step B m r d) =
     fst ` set d \<union> py_str B ` {v \<in> set (related_ids B [r]). v \<noteq> NoneV}"
  by (cases r) (auto simp: related_step_def related_ids_def keys_setdefault keys_update_item Let_def)

lemma related_fold_keys:
  "fst ` set (fold (related_step B m) rs d) =
     fst ` set d \<union> py_str B ` {v \<in> set (related_ids B rs). v \<noteq> NoneV}"
proof (induction rs arbitrary: d)
  case Nil
  then show ?case by (simp add: related_ids_def)
next
  case (Cons r rs)
  have "related_ids B (r # rs) = related_ids B [r] @ related_ids B rs"
    by (simp add: related_ids_def)
  then show ?case
    by (auto simp: Cons.IH related_step_keys)
qed

lemma event_step_keys:
  "fst ` set (event_step B ev d) =
     fst ` set d \<union> py_str B ` {v \<in> set (event_ids B ev). v \<noteq> NoneV}"
proof (cases "\<exists>e. ev = DictV e")
  case True
  then obtain e where ev: "ev = DictV e" by blast
  show ?thesis
  proof (cases "\<exists>rs. related_of B e = ListV rs")
    case True
    then obtain rs where "related_of B e = ListV rs" by blast
    with ev show ?thesis
      by (auto simp: event_step_def event_ids_def related_fold_keys keys_setdefault
                     keys_update_item Let_def)
  next
    case False
    with ev show ?thesis
      by (cases "related_of B e")
         (auto simp: event_step_def event_ids_def keys_setdefault keys_update_item Let_def)
  qed
next
  case False
  then show ?thesis
    by (cases ev) (simp_all add: event_step_def event_ids_def)
qed

lemma events_fold_keys:
  "fst ` set (fold (event_step B) evs d) =
     fst ` set d \<union> py_str B ` {v \<in> set (concat (map (event_ids B) evs)). v \<noteq> NoneV}"
proof (induction evs arbitrary: d)
  case Nil
  then show ?case by simp
next
  case (Cons ev evs)
  then show ?case
    by (auto simp: event_step_keys)
qed

lemma distinct_update_item: "distinct (map fst (update_item d k f)) = distinct (map fst d)"
  by (simp add: map_fst_update_item)

lemma related_step_distinct:
  "distinct (map fst d) \<Longrightarrow> distinct (map fst (related_step B m r d))"
  by (cases r) (simp_all add: related_step_def distinct_setdefault distinct_update_item Let_def)

lemma related_fold_distinct:
  "distinct (map fst d) \<Longrightarrow> distinct (map fst (fold (related_step B m) rs d))"
  by (induction rs arbitrary: d) (simp_all add: related_step_distinct)

lemma event_step_distinct:
  "distinct (map fst d) \<Longrightarrow> distinct (map fst (event_step B ev d))"
proof (cases "\<exists>e. ev = DictV e")
  case True
  assume d: "distinct (map fst d)"
  from True obtain e where ev: "ev = DictV e" by blast
  show ?thesis
  proof (cases "\<exists>rs. related_of B e = ListV rs")
    case True
    then obtain rs where "related_of B e = ListV rs" by blast
    with ev d show ?thesis
      by (simp add: event_step_def related_fold_distinct distinct_setdefault
                    distinct_update_item Let_def)
  next
    case False
    with ev d show ?thesis
      by (cases "related_of B e")
         (simp_all add: event_step_def distinct_setdefault distinct_update_item Let_def)
  qed
next
  case False
  assume "distinct (map fst d)"
  with False show ?thesis
    by (cases ev) (simp_all add: event_step_def)
qed

lemma events_fold_distinct:
  "distinct (map fst d) \<Longrightarrow> distinct (map fst (fold (event_step B) evs d))"
  by (induction evs arbitrary: d) (simp_all add: event_step_distinct)

lemma related_step_minutes:
  "minutes_at (related_step B m r d) k =
     (if assist_entry B k r then max (minutes_at d k) m else minutes_at d k)"
proof (cases "\<exists>rd. r = DictV rd")
  case True
  then obtain rd where r: "r = DictV rd" by blast
  let ?v = "id_of B (rplayer_of B rd)"
  have in_keys: "py_str B ?v \<in> fst ` set (setdefault d (py_str B ?v) zero_tally)"
    by (simp add: keys_setdefault)
  show ?thesis
  proof (cases "?v = NoneV")
    case True
    with r show ?thesis
      by (auto simp: related_step_def assist_entry_def split: sum.splits)
  next
    case False
    show ?thesis
    proof (cases "assist_entry B (py_str B ?v) r")
      case True
      with False r have "related_step B m r d =
          update_item (setdefault d (py_str B ?v) zero_tally) (py_str B ?v) (add_assist m)"
        by (simp add: related_step_def Let_def)
      moreover from True r have "assist_entry B k r \<longleftrightarrow> k = py_str B ?v"
        by (auto simp: assist_entry_def split: sum.splits)
      ultimately show ?thesis
        by (simp add: minutes_at_add_assist [OF in_keys] zero_tally_minutes)
    next
      case not_assist: False
      with False r have "related_step B m r d = setdefault d (py_str B ?v) zero_tally"
        by (simp add: related_step_def Let_def)
      moreover from not_assist r have "\<not> assist_entry B k r"
        by (auto simp: assist_entry_def split: sum.splits)
      ultimately show ?thesis
        by (simp add: zero_tally_minutes)
    qed
  qed
next
  case False
  then show ?thesis
    by (cases r) (simp_all add: related_step_def assist_entry_def)
qed

lemma related_fold_minutes:
  "minutes_at (fold (related_step B m) rs d) k =
     fold max (map (\<lambda>r. m) (filter (assist_entry B k) rs)) (minutes_at d k)"
  by (induction rs arbitrary: d) (simp_all add: related_step_minutes max.commute)


lemma event_step_minutes:
  "minutes_at (event_step B ev d) k =
     fold max (goal_minutes B k ev @ assist_minutes B k ev) (minutes_at d k)"
proof (cases "\<exists>e. ev = DictV e")
  case True
  then obtain e where ev: "ev = DictV e" by blast
  let ?pid = "id_of B (player_of B e)"
  let ?key = "py_str B ?pid"
  let ?goal = "?pid \<noteq> NoneV \<and> (case type_name B e of Inl x \<Rightarrow> False | Inr tname \<Rightarrow> is_goal tname)"
  let ?inj = "?pid \<noteq> NoneV \<and> (case type_name B e of Inl x \<Rightarrow> False | Inr tname \<Rightarrow> is_injury tname)"
  let ?d1 = "if ?pid = NoneV then d else setdefault d ?key zero_tally"
  let ?d2 = "if ?goal then update_item ?d1 ?key (add_goal (minute_of B e)) else ?d1"
  let ?d3 = "if ?inj then update_item ?d2 ?key set_injury else ?d2"
  have d1: "minutes_at ?d1 k = minutes_at d k"
    by (simp add: zero_tally_minutes)
  have k1: "?pid \<noteq> NoneV \<Longrightarrow> ?key \<in> fst ` set ?d1"
    by (simp add: keys_setdefault)
  have gm: "goal_minutes B k ev = (if ?goal \<and> ?key = k then [minute_of B e] else [])"
    using ev by (auto simp: goal_minutes_def split: sum.splits)
  have d2: "minutes_at ?d2 k = fold max (goal_minutes B k ev) (minutes_at d k)"
  proof (cases ?goal)
    case True
    then have "?d2 = update_item ?d1 ?key (add_goal (minute_of B e))" by simp
    moreover from True have "?key \<in> fst ` set ?d1" using k1 by blast
    ultimately show ?thesis
      using True by (simp add: gm minutes_at_add_goal zero_tally_minutes max.commute)
  next
    case False
    then have "?d2 = ?d1" by (simp only: if_False)
    moreover from False have "goal_minutes B k ev = []"
      by (subst gm) (simp only: if_False simp_thms)
    ultimately show ?thesis using d1 by simp
  qed
  have k2: "?pid \<noteq> NoneV \<Longrightarrow> ?key \<in> fst ` set ?d2"
    using k1 by (simp add: keys_update_item)
  have d3: "minutes_at ?d3 k = fold max (goal_minutes B k ev) (minutes_at d k)"
  proof (cases ?inj)
    case True
    then have "?d3 = update_item ?d2 ?key set_injury" by simp
    moreover from True have "?key \<in> fst ` set ?d2" using k2 by blast
    ultimately show ?thesis
      using d2 by (simp add: minutes_at_set_injury)
  next
    case False
    then have "?d3 = ?d2" by (simp only: if_False)
    then show ?thesis using d2 by simp
  qed
  show ?thesis
  proof (cases "\<exists>rs. related_of B e = ListV rs")
    case True
    then obtain rs where rs: "related_of B e = ListV rs" by blast
    with ev have "event_step B ev d = fold (related_step B (minute_of B e)) rs ?d3"
      by (simp add: event_step_def Let_def)
    moreover from ev rs have "assist_minutes B k ev =
        map (\<lambda>r. minute_of B e) (filter (assist_entry B k) rs)"
      by (simp add: assist_minutes_def)
    ultimately show ?thesis
      using d3 by (simp add: related_fold_minutes)
  next
    case False
    with ev have "event_step B ev d = ?d3"
      by (cases "related_of B e") (simp_all add: event_step_def Let_def)
    moreover from ev False have "assist_minutes B k ev = []"
      by (cases "related_of B e") (simp_all add: assist_minutes_def)
    ultimately show ?thesis
      using d3 by simp
  qed
next
  case False
  then show ?thesis
    by (cases ev) (simp_all add: event_step_def goal_minutes_def assist_minutes_def)
qed

lemma events_fold_minutes:
  "minutes_at (fold (event_step B) evs d) k =
     fold max (concat (map (\<lambda>ev. goal_minutes B k ev @ assist_minutes B k ev) evs))
       (minutes_at d k)"
  by (induction evs arbitrary: d) (simp_all add: event_step_minutes)

lemma fold_max_Max: "fold max xs (a::int) = Max (set (a # xs))"
  by (rule Max.set_eq_fold [symmetric])

lemma process_statsbomb_by_player:
  assumes "process_statsbomb B data = Inr stats"
  shows "stats = map emit (fold (event_step B) (events_list B data) [])"
proof -
  from assms obtain events where it: "py_iter (events_of B data) = Inr events"
    by (auto simp: process_statsbomb_def split: sum.splits)
  with assms obtain d where run: "events_loop B events [] = Inr d" and stats: "stats = map emit d"
    by (auto simp: process_statsbomb_def split: sum.splits)
  from events_loop_fold [OF run] it stats show ?thesis
    by (simp add: events_list_def)
qed

text \<open>
  C6. The normalizer does raise on some payloads. A type name that is present but is not a
  string makes \<open>.lower()\<close> raise \<open>AttributeError\<close>, and an \<open>events\<close> field that is a non-zero
  number makes the loop over the events raise \<open>TypeError\<close>; nothing catches either, and
  no \<open>StatUpdate\<close> is handed to the callback.
\<close>

theorem process_statsbomb_raises:
  "process_statsbomb unused
     (DictV [(''events'', ListV [DictV [(''type'', DictV [(''name'', IntV 5)]),
                                        (''player'', DictV [(''id'', IntV 1)]),
                                        (''minute'', IntV 10)]])]) = Inl AttributeError \<and>
   process_statsbomb unused (DictV [(''events'', IntV 5)]) = Inl TypeError"
  by (simp add: norm_eval)

text \<open>
  C7, as the spec states it, fails: a player with a goal at minute 20 and an injury at
  minute 80 has events at minutes 20 and 80, and the \<open>StatUpdate\<close> emitted for the player
  has minutes 20.
\<close>

theorem minutes_not_max_of_events:
  "process_statsbomb unused
     (DictV [(''events'', ListV [
        DictV [(''type'', DictV [(''name'', StrV ''Goal'')]),
               (''player'', DictV [(''id'', IntV 7)]), (''minute'', IntV 20)],
        DictV [(''type'', DictV [(''name'', StrV ''Injury'')]),
               (''player'', DictV [(''id'', IntV 7)]), (''minute'', IntV 80)]])]) =
     Inr [\<lparr>goals = 1, assists = 0, minutes = 20, injury = True, player_id = ''7''\<rparr>] \<and>
   event_minutes unused ''7''
     (DictV [(''events'', ListV [
        DictV [(''type'', DictV [(''name'', StrV ''Goal'')]),
               (''player'', DictV [(''id'', IntV 7)]), (''minute'', IntV 20)],
        DictV [(''type'', DictV [(''name'', StrV ''Injury'')]),
               (''player'', DictV [(''id'', IntV 7)]), (''minute'', IntV 80)]])]) = [20, 80]"
  by (simp add: norm_eval)

text \<open>
  C7, amended. When the normalizer returns, the minutes of the \<open>StatUpdate\<close> emitted for a
  player are the maximum of 0 and of the minute marks credited to the player, that is the
  minutes of the player's goal events and of the events in which the player has an
  assist entry; it is a maximum, not a sum, and events of other kinds do not raise it.
\<close>

theorem minutes_max_of_credits:
  assumes "process_statsbomb B data = Inr stats" and "s \<in> set stats"
  shows "minutes s = Max (set (0 # credited_minutes B (player_id s) data))"
proof -
  let ?d = "fold (event_step B) (events_list B data) []"
  from assms obtain k rec where kr: "(k, rec) \<in> set ?d" and s: "s = emit (k, rec)"
    using process_statsbomb_by_player [OF assms(1)] by auto
  have "distinct (map fst ?d)"
    by (rule events_fold_distinct) simp
  with kr have "map_of ?d k = Some rec" by simp
  then have "minutes_at ?d k = minutes rec"
    by (simp add: minutes_at_def)
  moreover have "minutes_at [] k = 0"
    by (simp add: minutes_at_def)
  then have "minutes_at ?d k = fold max (credited_minutes B k data) 0"
    by (simp only: events_fold_minutes credited_minutes_def)
  moreover from s have "minutes s = minutes rec" "player_id s = k"
    by (simp_all add: emit_def)
  ultimately show ?thesis
    by (simp add: fold_max_Max)
qed

theorem minutes_max_of_credits_witness:
  "process_statsbomb unused
     (DictV [(''events'', ListV [
        DictV [(''type'', DictV [(''name'', StrV ''Goal'')]),
               (''player'', DictV [(''id'', IntV 999)]), (''minute'', IntV 20)],
        DictV [(''type'', DictV [(''name'', StrV ''Goal'')]),
               (''player'', DictV [(''id'', IntV 999)]), (''minute'', IntV 75)]])]) =
     Inr [\<lparr>goals = 2, assists = 0, minutes = 75, injury = False, player_id = ''999''\<rparr>] \<and>
   Max (set (0 # credited_minutes unused ''999''
     (DictV [(''events'', ListV [
        DictV [(''type'', DictV [(''name'', StrV ''Goal'')]),
               (''player'', DictV [(''id'', IntV 999)]), (''minute'', IntV 20)],
        DictV [(''type'', DictV [(''name'', StrV ''Goal'')]),
               (''player'', DictV [(''id'', IntV 999)]), (''minute'', IntV 75)]])]))) = 75"
proof -
  let ?data = "DictV [(''events'', ListV [
        DictV [(''type'', DictV [(''name'', StrV ''Goal'')]),
               (''player'', DictV [(''id'', IntV 999)]), (''minute'', IntV 20)],
        DictV [(''type'', DictV [(''name'', StrV ''Goal'')]),
               (''player'', DictV [(''id'', IntV 999)]), (''minute'', IntV 75)]])]"
  let ?s = "\<lparr>goals = 2, assists = 0, minutes = 75, injury = False, player_id = ''999''\<rparr>"
  have run: "process_statsbomb unused ?data = Inr [?s]"
    by (simp add: norm_eval)
  have "?s \<in> set [?s]" by simp
  from minutes_max_of_credits [OF run this] run show ?thesis by simp
qed

lemma emitted_ids:
  assumes "process_statsbomb B data = Inr stats"
  shows "player_id ` set stats = py_str B ` {v \<in> set (resolved_ids B data). v \<noteq> NoneV}"
proof -
  let ?d = "fold (event_step B) (events_list B data) []"
  have "player_id ` set stats = fst ` set ?d"
    using process_statsbomb_by_player [OF assms] by (force simp: emit_def image_iff)
  then show ?thesis
    by (simp add: events_fold_keys resolved_ids_def)
qed


text \<open>
  C10, as the spec states it, fails on both counts. An event with a goal type, a player
  object \<open>{"id": 0, "player_id": 0}\<close> and a related entry \<open>{"id": 0, "role": "Assist"}\<close>
  emits a \<open>StatUpdate\<close> with player id \<open>0\<close>: the last alternative of an or-chain is taken
  as it is. And an event without a primary player still emits a \<open>StatUpdate\<close> for the
  player of its assist entry.
\<close>

theorem zero_id_emitted:
  "process_statsbomb unused
     (DictV [(''events'', ListV [
        DictV [(''type'', DictV [(''name'', StrV ''Goal'')]),
               (''player'', DictV [(''id'', IntV 0), (''player_id'', IntV 0)]),
               (''minute'', IntV 5),
               (''related_players'', ListV [DictV [(''id'', IntV 0), (''role'', StrV ''Assist'')]])]])]) =
     Inr [\<lparr>goals = 1, assists = 1, minutes = 5, injury = False, player_id = ''0''\<rparr>] \<and>
   process_statsbomb unused
     (DictV [(''events'', ListV [
        DictV [(''type'', DictV [(''name'', StrV ''Goal'')]),
               (''minute'', IntV 9),
               (''related_players'',
                  ListV [DictV [(''player'', DictV [(''id'', IntV 5)]), (''role'', StrV ''Assist'')]])]])]) =
     Inr [\<lparr>goals = 0, assists = 1, minutes = 9, injury = False, player_id = ''5''\<rparr>]"
  by (simp add: norm_eval)

text \<open>
  C10, amended. A player object whose \<open>id\<close> is the number 0 and which has no \<open>player_id\<close>
  resolves to no identifier, for a primary player and for a related entry alike. An event
  whose primary identifier is absent does nothing for a primary player: only its related
  entries are processed. And when the normalizer returns, the player ids it emits are
  exactly the strings of the identifiers, primary and related, that resolved to something
  other than \<open>None\<close>; so a payload all of whose player objects carry only the id 0 emits
  nothing.
\<close>

theorem absent_id_contributes_nothing:
  "(dict_get p ''id'' = IntV 0 \<and> dict_get p ''player_id'' = NoneV \<longrightarrow>
      id_of B (DictV p) = NoneV) \<and>
   (id_of B (player_of B e) = NoneV \<longrightarrow>
      process_event B (DictV e) by_player =
        (case type_name B e of
           Inl x \<Rightarrow> Inl x
         | Inr tname \<Rightarrow>
             (case related_of B e of
                ListV related \<Rightarrow> related_loop B (minute_of B e) related by_player
              | _ \<Rightarrow> Inr by_player))) \<and>
   (process_statsbomb B data = Inr stats \<longrightarrow>
      player_id ` set stats = py_str B ` {v \<in> set (resolved_ids B data). v \<noteq> NoneV})"
proof (intro conjI impI)
  assume "dict_get p ''id'' = IntV 0 \<and> dict_get p ''player_id'' = NoneV"
  then show "id_of B (DictV p) = NoneV"
    by (simp add: id_of_def py_or_def truthy_def)
next
  assume "id_of B (player_of B e) = NoneV"
  then show "process_event B (DictV e) by_player =
        (case type_name B e of
           Inl x \<Rightarrow> Inl x
         | Inr tname \<Rightarrow>
             (case related_of B e of
                ListV related \<Rightarrow> related_loop B (minute_of B e) related by_player
              | _ \<Rightarrow> Inr by_player))"
    by (simp add: process_event_def by_player_ensure_eq Let_def split: sum.splits pyval.splits)
next
  assume "process_statsbomb B data = Inr stats"
  then show "player_id ` set stats = py_str B ` {v \<in> set (resolved_ids B data). v \<noteq> NoneV}"
    by (rule emitted_ids)
qed

theorem absent_id_contributes_nothing_witness:
  "id_of unused (DictV [(''id'', IntV 0)]) = NoneV \<and>
   process_statsbomb unused
     (DictV [(''events'', ListV [
        DictV [(''type'', DictV [(''name'', StrV ''Goal'')]),
               (''player'', DictV [(''id'', IntV 0)]),
               (''minute'', IntV 5),
               (''related_players'',
                  ListV [DictV [(''player'', DictV [(''id'', IntV 0)]), (''role'', StrV ''Assist'')]])]])]) =
     Inr [] \<and>
   py_str unused ` {v \<in> set (resolved_ids unused
     (DictV [(''events'', ListV [
        DictV [(''type'', DictV [(''name'', StrV ''Goal'')]),
               (''player'', DictV [(''id'', IntV 0)]),
               (''minute'', IntV 5),
               (''related_players'',
                  ListV [DictV [(''player'', DictV [(''id'', IntV 0)]), (''role'', StrV ''Assist'')]])]])])).
       v \<noteq> NoneV} = {}"
proof -
  let ?p = "[(''id'', IntV 0)] :: (string \<times> unit pyval) list"
  let ?e = "[(''type'', DictV [(''name'', StrV ''Goal'')]),
               (''player'', DictV ?p),
               (''minute'', IntV 5),
               (''related_players'',
                  ListV [DictV [(''player'', DictV ?p), (''role'', StrV ''Assist'')]])]"
  let ?data = "DictV [(''events'', ListV [DictV ?e])]"
  have hp: "dict_get ?p ''id'' = IntV 0 \<and> dict_get ?p ''player_id'' = NoneV"
    by (simp add: dict_get_def)
  have run: "process_statsbomb unused ?data = Inr []"
    by (simp add: norm_eval)
  from absent_id_contributes_nothing [of ?p unused ?e "[]" ?data "[]"] hp run
  show ?thesis by simp
qed

end
